theory Spec2Isabelle
  imports
    Main
    "HOL-Library.Finite_Map"
    "HOL-Library.Signed_Division"
    "HOL-Library.Sublist"
    "HOL-Library.Char_ord"
    "HOL-Library.List_Lexorder"
begin

section \<open>SmolDungeon: the Go combat resolver (apps/dm-go, core.go)\<close>

text \<open>
  The development embeds the Go resolution engine: \<^verbatim>\<open>types.go\<close>, \<^verbatim>\<open>rng.go\<close> and the
  file holding \<^verbatim>\<open>ApplyAction\<close>, the five handlers, \<^verbatim>\<open>advanceTurn\<close>,
  \<^verbatim>\<open>deepCopyState\<close> and \<^verbatim>\<open>CheckCombatEnd\<close>.

  Conventions of the embedding.
  \<^item> Go's \<^verbatim>\<open>int\<close> is modelled by \<^typ>\<open>int\<close>. All quantities are taken to stay in the range
    where 64-bit arithmetic does not wrap and where the conversions through
    \<^verbatim>\<open>float64\<close> around \<^verbatim>\<open>math.Max\<close> and \<^verbatim>\<open>math.Min\<close> are exact (magnitude below \<open>2^53\<close>),
    so \<^verbatim>\<open>int(math.Max(a, float64(x)))\<close> is \<open>max a x\<close>. Go's \<^verbatim>\<open>/\<close> and \<^verbatim>\<open>%\<close> truncate towards
    zero: they are \<open>sdiv\<close> and \<open>smod\<close>.
  \<^item> A pointer into \<^verbatim>\<open>state.Characters\<close> is an index into the list; a write through the
    pointer is a list update at that index.
  \<^item> A Go map is a finite map; a \<^verbatim>\<open>nil\<close> map is \<open>None\<close>. Reading a \<^verbatim>\<open>nil\<close> map yields the
    zero value, ranging over it does nothing, assigning into it panics.
  \<^item> A run-time panic is a value of type \<open>panic\<close>; every function that can panic returns
    \<open>panic + result\<close>.
  \<^item> The order in which \<^verbatim>\<open>range\<close> visits the keys of a map is not fixed by Go. It is an
    explicit argument \<open>ord\<close> of the model: \<open>ord m\<close> is the sequence of keys in which the
    entries of \<open>m\<close> are visited.
  \<^item> \<^verbatim>\<open>math/rand\<close> is not part of the repository. The generator is a parameter \<open>R\<close>: a type
    \<open>'g\<close> of generator states, \<open>NewSource\<close> building one from a seed and \<open>Intn\<close> drawing a
    number and returning the next generator state.
  \<^item> \<^verbatim>\<open>log.Printf\<close> writes to the process log only and is left out.
\<close>

subsection \<open>types.go\<close>

type_synonym ID = string

record Stat =
  HP :: int
  MaxHP :: int
  Attack :: int
  Defense :: int
  Speed :: int

record Position =
  X :: int
  Y :: int

record Weapon =
  ID :: ID
  Name :: string
  Damage :: int
  Accuracy :: int

record Ability =
  ID :: ID
  Name :: string
  Cooldown :: int
  Effect :: string
  Power :: int

record Item =
  ID :: ID
  Name :: string
  Type :: string
  Effect :: string

record Character =
  ID :: ID
  Name :: string
  Stats :: Stat
  Position :: Position
  Weapons :: "Weapon list"
  Abilities :: "Ability list"
  Items :: "Item list"
  AbilityCooldowns :: "(string, int) fmap option"
  IsPlayer :: bool

record Action =
  Kind :: string
  Attacker :: ID
  Target :: ID
  Weapon :: ID
  Actor :: ID
  Ability :: ID
  Item :: ID

record Event =
  ID :: string
  Type :: string
  Target :: ID
  Amount :: int
  Source :: ID
  Actor :: ID
  Ability :: ID
  Item :: ID

record State =
  Round :: int
  Characters :: "Character list"
  TurnOrder :: "ID list"
  CurrentTurn :: int
  IsComplete :: bool
  Winner :: "string option"

record Resolution =
  Events :: "Event list"
  State :: State
  Logs :: "string list"

datatype panic = AssignmentToNilMap | IntegerDivideByZero

text \<open>The zero value of \<^verbatim>\<open>Event\<close>: a Go struct literal leaves unnamed fields at zero.\<close>

definition Event0 :: Event where
  "Event0 = \<lparr>Event.ID = [], Event.Type = [], Event.Target = [], Amount = 0, Source = [],
             Event.Actor = [], Event.Ability = [], Event.Item = []\<rparr>"

subsection \<open>rng.go\<close>

record 'g MathRand =
  NewSource :: "int \<Rightarrow> 'g"
  Intn :: "'g \<Rightarrow> int \<Rightarrow> int \<times> 'g"

definition NewSeededRNG :: "'g MathRand \<Rightarrow> int \<Rightarrow> 'g" where
  "NewSeededRNG R seed = NewSource R seed"

definition RollD20 :: "'g MathRand \<Rightarrow> 'g \<Rightarrow> int \<times> 'g" where
  "RollD20 R s = (case Intn R s 20 of (v, s') \<Rightarrow> (v + 1, s'))"

definition RollD6 :: "'g MathRand \<Rightarrow> 'g \<Rightarrow> int \<times> 'g" where
  "RollD6 R s = (case Intn R s 6 of (v, s') \<Rightarrow> (v + 1, s'))"

text \<open>
  What \<^verbatim>\<open>rand.Intn\<close> promises for a positive bound: a value in \<open>[0, n)\<close>. Only the
  statements that need it assume it.
\<close>

definition Intn_in_range :: "'g MathRand \<Rightarrow> bool" where
  "Intn_in_range R = (\<forall>g n. 0 < n \<longrightarrow> 0 \<le> fst (Intn R g n) \<and> fst (Intn R g n) < n)"

text \<open>
  A concrete generator for evaluating the model on explicit inputs: the linear congruential
  generator of \<^verbatim>\<open>packages/core/src/rng.ts\<close>, in exact arithmetic.
\<close>

definition lcg :: "int MathRand" where
  "lcg = \<lparr>NewSource = (\<lambda>seed. seed),
          Intn = (\<lambda>s n. let s' = (s * 9301 + 49297) mod 233280 in ((s' * n) div 233280, s'))\<rparr>"

subsection \<open>Library functions used by the resolver\<close>

text \<open>\<^verbatim>\<open>%d\<close> of \<^verbatim>\<open>fmt.Sprintf\<close>: decimal digits, with a sign for negative numbers.\<close>

fun digits :: "nat \<Rightarrow> string" where
  "digits n = (if n < 10 then [''0123456789'' ! n]
               else digits (n div 10) @ [''0123456789'' ! (n mod 10)])"

declare digits.simps [simp del]

definition itoa :: "int \<Rightarrow> string" where
  "itoa i = (if i < 0 then ''-'' @ digits (nat (- i)) else digits (nat i))"

text \<open>\<^verbatim>\<open>strings.Contains\<close>.\<close>

fun Contains :: "string \<Rightarrow> string \<Rightarrow> bool" where
  "Contains [] substr = (substr = [])"
| "Contains (c # cs) substr = (prefix substr (c # cs) \<or> Contains cs substr)"

text \<open>The index of the first element satisfying a test: the loops that search a slice.\<close>

fun findIndex :: "('a \<Rightarrow> bool) \<Rightarrow> 'a list \<Rightarrow> nat option" where
  "findIndex P [] = None"
| "findIndex P (x # xs) = (if P x then Some 0 else map_option Suc (findIndex P xs))"

text \<open>
  \<^verbatim>\<open>deepCopyState\<close> marshals the state to JSON and unmarshals it again. On values this is
  the identity: integers, booleans, strings (valid UTF-8, as every string decoded from a
  request is), slices, the string-keyed map and the optional winner all survive the round
  trip, and a \<^verbatim>\<open>nil\<close> map comes back \<^verbatim>\<open>nil\<close>. What the copy changes is which memory the
  result occupies; that is the subject of the store model further down.
\<close>

definition deepCopyState :: "State \<Rightarrow> State" where
  "deepCopyState state = state"

subsection \<open>Lookups\<close>

definition GetCharacterByID :: "State \<Rightarrow> ID \<Rightarrow> nat option" where
  "GetCharacterByID state id' = findIndex (\<lambda>c. Character.ID c = id') (Characters state)"

definition getActorID :: "Action \<Rightarrow> ID" where
  "getActorID action =
     (if Kind action = ''Attack'' then Attacker action
      else if Kind action \<in> {''Defend'', ''Ability'', ''UseItem'', ''Flee''}
           then Action.Actor action
      else [])"

definition CheckCombatEnd :: "State \<Rightarrow> bool" where
  "CheckCombatEnd state = (IsComplete state \<or> Round state \<ge> 20)"

subsection \<open>advanceTurn\<close>

text \<open>
  The inner loop \<^verbatim>\<open>for abilityID, cooldown := range char.AbilityCooldowns\<close>: the keys are
  visited in the order \<open>keys\<close>; a positive entry is overwritten with one less.
\<close>

fun decreaseCooldowns :: "(string, int) fmap \<Rightarrow> string list \<Rightarrow> (string, int) fmap" where
  "decreaseCooldowns m [] = m"
| "decreaseCooldowns m (abilityID # keys) =
     decreaseCooldowns
       (case fmlookup m abilityID of
          None \<Rightarrow> m
        | Some cooldown \<Rightarrow> if cooldown > 0 then fmupd abilityID (cooldown - 1) m else m)
       keys"

text \<open>The body of the outer loop over \<^verbatim>\<open>updatedState.Characters\<close>, for one character.\<close>

definition tickCharacter :: "((string, int) fmap \<Rightarrow> string list) \<Rightarrow> Character \<Rightarrow> Character" where
  "tickCharacter ord char =
     (let char1 = (case AbilityCooldowns char of
                     None \<Rightarrow> char
                   | Some m \<Rightarrow> char\<lparr>AbilityCooldowns := Some (decreaseCooldowns m (ord m))\<rparr>)
      in if Defense (Stats char1) > 5
         then char1\<lparr>Stats := (Stats char1)\<lparr>Defense := max 0 (Defense (Stats char1) - 2)\<rparr>\<rparr>
         else char1)"

definition alivePlayers :: "Character list \<Rightarrow> nat" where
  "alivePlayers cs = length (filter (\<lambda>c. IsPlayer c \<and> HP (Stats c) > 0) cs)"

definition aliveEnemies :: "Character list \<Rightarrow> nat" where
  "aliveEnemies cs = length (filter (\<lambda>c. \<not> IsPlayer c \<and> HP (Stats c) > 0) cs)"

definition advanceTurn :: "((string, int) fmap \<Rightarrow> string list) \<Rightarrow> State \<Rightarrow> panic + State" where
  "advanceTurn ord state =
     (let updatedState = deepCopyState state;
          s1 = updatedState\<lparr>Characters := map (tickCharacter ord) (Characters updatedState)\<rparr>;
          s2 = (if alivePlayers (Characters s1) = 0
                then s1\<lparr>IsComplete := True, Winner := Some ''enemy''\<rparr>
                else if aliveEnemies (Characters s1) = 0
                then s1\<lparr>IsComplete := True, Winner := Some ''player''\<rparr>
                else s1)
      in if \<not> IsComplete s2
         then (if length (TurnOrder s2) = 0 then Inl IntegerDivideByZero
               else (let s3 = s2\<lparr>CurrentTurn :=
                                   (CurrentTurn s2 + 1) smod int (length (TurnOrder s2))\<rparr>
                     in if CurrentTurn s3 = 0 then Inr (s3\<lparr>Round := Round s3 + 1\<rparr>)
                        else Inr s3))
         else Inr s2)"

text \<open>
  The common tail of the handlers:
  \<^verbatim>\<open>updatedState := advanceTurn(*state); return Resolution{events, updatedState, logs}\<close>.
\<close>

definition advanceAndReturn ::
  "((string, int) fmap \<Rightarrow> string list) \<Rightarrow> State \<Rightarrow> Event list \<Rightarrow> string list
   \<Rightarrow> panic + Resolution" where
  "advanceAndReturn ord state events logs =
     (case advanceTurn ord state of
        Inl p \<Rightarrow> Inl p
      | Inr updatedState \<Rightarrow> Inr \<lparr>Events = events, State = updatedState, Logs = logs\<rparr>)"

subsection \<open>The handlers\<close>

text \<open>Writes through a \<^verbatim>\<open>*Character\<close> that points at index \<open>i\<close> of \<^verbatim>\<open>state.Characters\<close>.\<close>

definition setHP :: "State \<Rightarrow> nat \<Rightarrow> int \<Rightarrow> State" where
  "setHP state i v =
     state\<lparr>Characters := (Characters state)
        [i := (Characters state ! i)\<lparr>Stats := (Stats (Characters state ! i))\<lparr>HP := v\<rparr>\<rparr>]\<rparr>"

definition setDefense :: "State \<Rightarrow> nat \<Rightarrow> int \<Rightarrow> State" where
  "setDefense state i v =
     state\<lparr>Characters := (Characters state)
        [i := (Characters state ! i)\<lparr>Stats := (Stats (Characters state ! i))\<lparr>Defense := v\<rparr>\<rparr>]\<rparr>"

definition setCooldowns :: "State \<Rightarrow> nat \<Rightarrow> (string, int) fmap \<Rightarrow> State" where
  "setCooldowns state i m =
     state\<lparr>Characters := (Characters state)
        [i := (Characters state ! i)\<lparr>AbilityCooldowns := Some m\<rparr>]\<rparr>"

definition setItems :: "State \<Rightarrow> nat \<Rightarrow> Item list \<Rightarrow> State" where
  "setItems state i its =
     state\<lparr>Characters := (Characters state)[i := (Characters state ! i)\<lparr>Items := its\<rparr>]\<rparr>"

definition Fist :: Weapon where
  "Fist = \<lparr>Weapon.ID = [], Weapon.Name = ''Fist'', Damage = 1, Accuracy = 0\<rparr>"

definition handleAttack ::
  "((string, int) fmap \<Rightarrow> string list) \<Rightarrow> 'g MathRand \<Rightarrow> State \<Rightarrow> Action \<Rightarrow> 'g
   \<Rightarrow> Event list \<Rightarrow> string list \<Rightarrow> panic + Resolution" where
  "handleAttack ord R state action rng events logs =
     (case (GetCharacterByID state (Attacker action),
            GetCharacterByID state (Action.Target action)) of
        (Some ai, Some ti) \<Rightarrow>
          (let attacker = Characters state ! ai;
               target = Characters state ! ti;
               found = find (\<lambda>w. Weapon.ID w = Action.Weapon action) (Weapons attacker);
               logs1 = (case found of None \<Rightarrow> logs @ [''Weapon not found - using default'']
                        | Some w \<Rightarrow> logs);
               weapon = (case found of None \<Rightarrow> Fist | Some w \<Rightarrow> w);
               (attackRoll, rng1) = RollD20 R rng;
               hit = (attackRoll + Attack (Stats attacker) \<ge> Defense (Stats target) + 10)
           in if hit
              then (let baseDamage = Damage weapon + (Attack (Stats attacker) sdiv 2);
                        (damageRoll, rng2) = RollD6 R rng1;
                        totalDamage = max 1 (baseDamage + damageRoll - Defense (Stats target));
                        newHP = max 0 (HP (Stats target) - totalDamage);
                        state1 = setHP state ti newHP;
                        events1 = events @ [Event0\<lparr>Event.Type := ''damage'',
                                     Event.Target := Character.ID target,
                                     Amount := totalDamage,
                                     Source := Character.ID attacker\<rparr>];
                        logs2 = logs1 @ [Character.Name attacker @ '' attacks ''
                                     @ Character.Name target @ '' with '' @ Weapon.Name weapon
                                     @ '' for '' @ itoa totalDamage @ '' damage!'']
                    in if newHP = 0
                       then advanceAndReturn ord state1
                              (events1 @ [Event0\<lparr>Event.Type := ''death'',
                                            Event.Target := Character.ID target\<rparr>])
                              (logs2 @ [Character.Name target @ '' has been defeated!''])
                       else advanceAndReturn ord state1 events1 logs2)
              else advanceAndReturn ord state events
                     (logs1 @ [Character.Name attacker @ '' misses ''
                               @ Character.Name target @ ''!'']))
      | _ \<Rightarrow> Inr \<lparr>Events = events, State = state, Logs = logs @ [''Invalid attack action'']\<rparr>)"

definition handleDefend ::
  "((string, int) fmap \<Rightarrow> string list) \<Rightarrow> 'g MathRand \<Rightarrow> State \<Rightarrow> Action \<Rightarrow> 'g
   \<Rightarrow> Event list \<Rightarrow> string list \<Rightarrow> panic + Resolution" where
  "handleDefend ord R state action rng events logs =
     (case GetCharacterByID state (Action.Actor action) of
        None \<Rightarrow> Inr \<lparr>Events = events, State = state, Logs = logs @ [''Invalid defend action'']\<rparr>
      | Some ci \<Rightarrow>
          (let character = Characters state ! ci;
               state1 = setDefense state ci (Defense (Stats character) + 2);
               logs1 = logs @ [Character.Name character @ '' takes a defensive stance!'']
           in advanceAndReturn ord state1 events logs1))"

definition handleAbility ::
  "((string, int) fmap \<Rightarrow> string list) \<Rightarrow> 'g MathRand \<Rightarrow> State \<Rightarrow> Action \<Rightarrow> 'g
   \<Rightarrow> Event list \<Rightarrow> string list \<Rightarrow> panic + Resolution" where
  "handleAbility ord R state action rng events logs =
     (case GetCharacterByID state (Action.Actor action) of
        None \<Rightarrow> Inr \<lparr>Events = events, State = state, Logs = logs @ [''Invalid ability action'']\<rparr>
      | Some ci \<Rightarrow>
          (let character = Characters state ! ci
           in case find (\<lambda>a. Ability.ID a = Action.Ability action) (Abilities character) of
                None \<Rightarrow> Inr \<lparr>Events = events, State = state, Logs = logs @ [''Ability not found'']\<rparr>
              | Some ability \<Rightarrow>
                  (let cooldownKey = Ability.ID ability;
                       currentCooldown =
                         (case AbilityCooldowns character of
                            None \<Rightarrow> 0
                          | Some m \<Rightarrow> (case fmlookup m cooldownKey of None \<Rightarrow> 0 | Some c \<Rightarrow> c))
                   in if currentCooldown > 0
                      then Inr \<lparr>Events = events, State = state,
                                Logs = logs @ [Ability.Name ability @ '' is on cooldown!'']\<rparr>
                      else
                        (case AbilityCooldowns character of
                           None \<Rightarrow> Inl AssignmentToNilMap
                         | Some m \<Rightarrow>
                             (let state1 = setCooldowns state ci
                                             (fmupd cooldownKey (Cooldown ability) m);
                                  events1 = events @ [Event0\<lparr>Event.Type := ''ability_used'',
                                               Event.Actor := Character.ID character,
                                               Event.Ability := Ability.ID ability,
                                               Event.Target := Action.Target action\<rparr>]
                              in if Ability.Effect ability = ''damage''
                                 then (if Action.Target action \<noteq> []
                                       then (case GetCharacterByID state1 (Action.Target action) of
                                               None \<Rightarrow> advanceAndReturn ord state1 events1 logs
                                             | Some ti \<Rightarrow>
                                                 (let target = Characters state1 ! ti;
                                                      (roll, rng1) = RollD6 R rng;
                                                      damage = Power ability + roll;
                                                      newHP = max 0 (HP (Stats target) - damage);
                                                      state2 = setHP state1 ti newHP;
                                                      events2 = events1 @ [Event0\<lparr>
                                                        Event.Type := ''damage'',
                                                        Event.Target := Character.ID target,
                                                        Amount := damage,
                                                        Source := Character.ID character\<rparr>];
                                                      logs2 = logs @ [Character.Name character
                                                        @ '' uses '' @ Ability.Name ability
                                                        @ '' on '' @ Character.Name target
                                                        @ '' for '' @ itoa damage @ '' damage!'']
                                                  in if newHP = 0
                                                     then advanceAndReturn ord state2
                                                            (events2 @ [Event0\<lparr>
                                                               Event.Type := ''death'',
                                                               Event.Target := Character.ID target\<rparr>])
                                                            (logs2 @ [Character.Name target
                                                               @ '' has been defeated!''])
                                                     else advanceAndReturn ord state2 events2 logs2))
                                       else advanceAndReturn ord state1 events1 logs)
                                 else if Ability.Effect ability = ''heal''
                                 then (let (roll, rng1) = RollD6 R rng;
                                           healAmount = Power ability + roll;
                                           character1 = Characters state1 ! ci;
                                           state2 = setHP state1 ci
                                                      (min (MaxHP (Stats character1))
                                                           (HP (Stats character1) + healAmount));
                                           events2 = events1 @ [Event0\<lparr>Event.Type := ''heal'',
                                                        Event.Target := Character.ID character,
                                                        Amount := healAmount\<rparr>];
                                           logs2 = logs @ [Character.Name character @ '' uses ''
                                                     @ Ability.Name ability @ '' and heals for ''
                                                     @ itoa healAmount @ '' HP!'']
                                       in advanceAndReturn ord state2 events2 logs2)
                                 else advanceAndReturn ord state1 events1 logs)))))"

text \<open>
  In \<^verbatim>\<open>handleUseItem\<close> the pointer \<^verbatim>\<open>item\<close> is taken into the backing array of
  \<^verbatim>\<open>character.Items\<close> before the removal
  \<^verbatim>\<open>append(character.Items[:itemIndex], character.Items[itemIndex+1:]...)\<close>, which shifts the
  later items one slot down inside that same array. Afterwards \<^verbatim>\<open>item\<close> still points at slot
  \<open>itemIndex\<close>: it holds the item that followed the removed one, or the removed one itself
  when that was the last. \<open>itemAfterRemoval\<close> is what \<^verbatim>\<open>item.ID\<close> and \<^verbatim>\<open>item.Name\<close> read from
  then on.
\<close>

definition itemAfterRemoval :: "Item list \<Rightarrow> nat \<Rightarrow> Item" where
  "itemAfterRemoval its itemIndex =
     (if Suc itemIndex < length its then its ! Suc itemIndex else its ! itemIndex)"

definition handleUseItem ::
  "((string, int) fmap \<Rightarrow> string list) \<Rightarrow> 'g MathRand \<Rightarrow> State \<Rightarrow> Action \<Rightarrow> 'g
   \<Rightarrow> Event list \<Rightarrow> string list \<Rightarrow> panic + Resolution" where
  "handleUseItem ord R state action rng events logs =
     (case GetCharacterByID state (Action.Actor action) of
        None \<Rightarrow> Inr \<lparr>Events = events, State = state, Logs = logs @ [''Invalid item action'']\<rparr>
      | Some ci \<Rightarrow>
          (let character = Characters state ! ci
           in case findIndex (\<lambda>i. Item.ID i = Action.Item action) (Items character) of
                None \<Rightarrow> Inr \<lparr>Events = events, State = state, Logs = logs @ [''Item not found'']\<rparr>
              | Some itemIndex \<Rightarrow>
                  (let state1 = setItems state ci
                                  (take itemIndex (Items character)
                                   @ drop (Suc itemIndex) (Items character));
                       item = itemAfterRemoval (Items character) itemIndex;
                       events1 = events @ [Event0\<lparr>Event.Type := ''item_used'',
                                    Event.Actor := Character.ID character,
                                    Event.Item := Item.ID item\<rparr>]
                   in if Contains (Item.Name item) ''Potion''
                      then (let (roll, rng1) = RollD6 R rng;
                                healAmount = 20 + roll;
                                character1 = Characters state1 ! ci;
                                state2 = setHP state1 ci
                                           (min (MaxHP (Stats character1))
                                                (HP (Stats character1) + healAmount));
                                events2 = events1 @ [Event0\<lparr>Event.Type := ''heal'',
                                             Event.Target := Character.ID character,
                                             Amount := healAmount\<rparr>];
                                logs2 = logs @ [Character.Name character @ '' uses ''
                                          @ Item.Name item @ '' and heals for ''
                                          @ itoa healAmount @ '' HP!'']
                            in advanceAndReturn ord state2 events2 logs2)
                      else advanceAndReturn ord state1 events1 logs)))"

definition handleFlee ::
  "((string, int) fmap \<Rightarrow> string list) \<Rightarrow> 'g MathRand \<Rightarrow> State \<Rightarrow> Action \<Rightarrow> 'g
   \<Rightarrow> Event list \<Rightarrow> string list \<Rightarrow> panic + Resolution" where
  "handleFlee ord R state action rng events logs =
     (case GetCharacterByID state (Action.Actor action) of
        None \<Rightarrow> Inr \<lparr>Events = events, State = state, Logs = logs @ [''Invalid flee action'']\<rparr>
      | Some ci \<Rightarrow>
          (let character = Characters state ! ci;
               (fleeRoll, rng1) = RollD20 R rng;
               success = (fleeRoll + Speed (Stats character) \<ge> 15)
           in if success
              then (let events1 = events @ [Event0\<lparr>Event.Type := ''flee'',
                                     Event.Actor := Character.ID character\<rparr>];
                        logs1 = logs @ [Character.Name character
                                  @ '' successfully flees from combat!''];
                        winner = ''player'';
                        updatedState = \<lparr>Round = Round state,
                                        Characters = Characters state,
                                        TurnOrder = TurnOrder state,
                                        CurrentTurn = CurrentTurn state,
                                        IsComplete = True,
                                        Winner = Some winner\<rparr>
                    in Inr \<lparr>Events = events1, State = updatedState, Logs = logs1\<rparr>)
              else advanceAndReturn ord state events
                     (logs @ [Character.Name character @ '' fails to flee!''])))"

subsection \<open>ApplyAction\<close>

definition validKinds :: "string list" where
  "validKinds = [''Attack'', ''Defend'', ''Ability'', ''UseItem'', ''Flee'']"

definition ApplyAction ::
  "((string, int) fmap \<Rightarrow> string list) \<Rightarrow> 'g MathRand \<Rightarrow> State \<Rightarrow> Action \<Rightarrow> int
   \<Rightarrow> panic + Resolution" where
  "ApplyAction ord R state action seed =
     (let rng = NewSeededRNG R seed;
          events = [];
          logs = [''Actor bypass: Direct mutation used''];
          newState = deepCopyState state
      in case GetCharacterByID newState (getActorID action) of
           None \<Rightarrow> Inr \<lparr>Events = events, State = state,
                        Logs = logs @ [''Invalid action: character not found'']\<rparr>
         | Some ci \<Rightarrow>
             if \<not> (\<exists>k \<in> set validKinds. Kind action = k)
             then Inr \<lparr>Events = events, State = state, Logs = logs @ [''Invalid action kind'']\<rparr>
             else if Kind action = ''Attack'' then handleAttack ord R newState action rng events logs
             else if Kind action = ''Defend'' then handleDefend ord R newState action rng events logs
             else if Kind action = ''Ability'' then handleAbility ord R newState action rng events logs
             else if Kind action = ''UseItem'' then handleUseItem ord R newState action rng events logs
             else if Kind action = ''Flee'' then handleFlee ord R newState action rng events logs
             else Inr \<lparr>Events = events, State = state, Logs = logs @ [''Unknown action kind'']\<rparr>)"

text \<open>Whether a key order is one Go may use: every key of the map, once.\<close>

definition valid_order :: "((string, int) fmap \<Rightarrow> string list) \<Rightarrow> bool" where
  "valid_order ord = (\<forall>m. distinct (ord m) \<and> set (ord m) = fmdom' m)"

definition sortedKeys :: "(string, int) fmap \<Rightarrow> string list" where
  "sortedKeys m = sorted_list_of_fset (fmdom m)"

definition reverseKeys :: "(string, int) fmap \<Rightarrow> string list" where
  "reverseKeys m = rev (sorted_list_of_fset (fmdom m))"

subsection \<open>Observations and drivers used in the statements\<close>

text \<open>The Go read \<^verbatim>\<open>char.AbilityCooldowns[key]\<close>: zero for a missing key or a \<^verbatim>\<open>nil\<close> map.\<close>

definition cooldownOf :: "Character \<Rightarrow> string \<Rightarrow> int" where
  "cooldownOf char key =
     (case AbilityCooldowns char of
        None \<Rightarrow> 0
      | Some m \<Rightarrow> (case fmlookup m key of None \<Rightarrow> 0 | Some c \<Rightarrow> c))"

text \<open>\<open>N\<close> invocations of the Turn Advancer in a row.\<close>

fun advanceTurns :: "((string, int) fmap \<Rightarrow> string list) \<Rightarrow> nat \<Rightarrow> State \<Rightarrow> panic + State" where
  "advanceTurns ord 0 state = Inr state"
| "advanceTurns ord (Suc N) state =
     (case advanceTurn ord state of
        Inl p \<Rightarrow> Inl p
      | Inr state' \<Rightarrow> advanceTurns ord N state')"

text \<open>
  Driving an encounter: while the Combat-End Predicate does not hold, the policy picks an
  action and a seed for the current state and the resolver is applied; at most \<open>k\<close>
  resolutions are made.
\<close>

fun driveEncounter ::
  "((string, int) fmap \<Rightarrow> string list) \<Rightarrow> 'g MathRand \<Rightarrow> (State \<Rightarrow> Action \<times> int)
   \<Rightarrow> nat \<Rightarrow> State \<Rightarrow> panic + State" where
  "driveEncounter ord R policy 0 state = Inr state"
| "driveEncounter ord R policy (Suc k) state =
     (if CheckCombatEnd state then Inr state
      else case ApplyAction ord R state (fst (policy state)) (snd (policy state)) of
             Inl p \<Rightarrow> Inl p
           | Inr res \<Rightarrow> driveEncounter ord R policy k (State res))"

text \<open>
  The actions for which \<^verbatim>\<open>ApplyAction\<close> or a handler returns early with an error log and
  without running the Turn Advancer: unknown actor, unknown kind, unknown attack target,
  unknown ability, ability on cooldown, unknown item.
\<close>

definition softFails :: "State \<Rightarrow> Action \<Rightarrow> bool" where
  "softFails state action =
     (case GetCharacterByID state (getActorID action) of
        None \<Rightarrow> True
      | Some ci \<Rightarrow>
          Kind action \<notin> set validKinds
          \<or> (Kind action = ''Attack'' \<and> GetCharacterByID state (Action.Target action) = None)
          \<or> (Kind action = ''Ability'' \<and>
               (case find (\<lambda>a. Ability.ID a = Action.Ability action)
                          (Abilities (Characters state ! ci)) of
                  None \<Rightarrow> True
                | Some ability \<Rightarrow> cooldownOf (Characters state ! ci) (Ability.ID ability) > 0))
          \<or> (Kind action = ''UseItem'' \<and>
               findIndex (\<lambda>i. Item.ID i = Action.Item action)
                         (Items (Characters state ! ci)) = None))"

text \<open>The one panic a handler can raise itself: an ability used through a \<^verbatim>\<open>nil\<close> map.\<close>

definition writesNilMap :: "State \<Rightarrow> Action \<Rightarrow> bool" where
  "writesNilMap state action =
     (Kind action = ''Ability'' \<and>
      (case GetCharacterByID state (Action.Actor action) of
         None \<Rightarrow> False
       | Some ci \<Rightarrow> AbilityCooldowns (Characters state ! ci) = None))"

text \<open>
  Along the first \<open>k\<close> resolutions of a driven encounter the policy never picks an action that
  soft-fails or writes a \<^verbatim>\<open>nil\<close> map.
\<close>

fun policyResolves ::
  "((string, int) fmap \<Rightarrow> string list) \<Rightarrow> 'g MathRand \<Rightarrow> (State \<Rightarrow> Action \<times> int)
   \<Rightarrow> nat \<Rightarrow> State \<Rightarrow> bool" where
  "policyResolves ord R policy 0 state = True"
| "policyResolves ord R policy (Suc k) state =
     (CheckCombatEnd state
      \<or> (\<not> softFails state (fst (policy state))
         \<and> \<not> writesNilMap state (fst (policy state))
         \<and> (case ApplyAction ord R state (fst (policy state)) (snd (policy state)) of
               Inl p \<Rightarrow> False
             | Inr res \<Rightarrow> policyResolves ord R policy k (State res))))"

text \<open>The invariant of the data model on hit points.\<close>

definition hpInBounds :: "State \<Rightarrow> bool" where
  "hpInBounds state =
     (\<forall>c \<in> set (Characters state). 0 \<le> HP (Stats c) \<and> HP (Stats c) \<le> MaxHP (Stats c))"

text \<open>The decrement the Turn Advancer applies to one cooldown entry.\<close>

definition decay :: "int \<Rightarrow> int" where
  "decay c = (if c > 0 then c - 1 else c)"

subsection \<open>Concrete data: the characters of the repository's tests\<close>

text \<open>\<^verbatim>\<open>createTestCharacter\<close> of the Go tests, with fixed identifiers in place of fresh UUIDs.\<close>

definition createTestCharacter :: "bool \<Rightarrow> string \<Rightarrow> string \<Rightarrow> Character" where
  "createTestCharacter isPlayer ident name =
     \<lparr>Character.ID = ident, Character.Name = name,
      Stats = \<lparr>HP = 30, MaxHP = 30, Attack = 15, Defense = 3, Speed = 4\<rparr>,
      Position = \<lparr>X = 0, Y = 0\<rparr>,
      Weapons = [\<lparr>Weapon.ID = ''w-'' @ ident, Weapon.Name = ''Test Weapon'',
                  Damage = 6, Accuracy = 85\<rparr>],
      Abilities = [\<lparr>Ability.ID = ''a-'' @ ident, Ability.Name = ''Test Ability'',
                    Cooldown = 3, Ability.Effect = ''damage'', Power = 8\<rparr>],
      Items = [\<lparr>Item.ID = ''i-'' @ ident, Item.Name = ''Health Potion'',
                Item.Type = ''consumable'', Item.Effect = ''heal 20 HP''\<rparr>],
      AbilityCooldowns = Some fmempty,
      IsPlayer = isPlayer\<rparr>"

definition hero :: Character where
  "hero = createTestCharacter True ''hero'' ''Hero''"

definition goblin :: Character where
  "goblin = createTestCharacter False ''goblin'' ''Goblin''"

definition state0 :: State where
  "state0 = \<lparr>Round = 1, Characters = [hero, goblin], TurnOrder = [''hero'', ''goblin''],
             CurrentTurn = 0, IsComplete = False, Winner = None\<rparr>"

definition Action0 :: Action where
  "Action0 = \<lparr>Kind = [], Attacker = [], Action.Target = [], Action.Weapon = [],
              Action.Actor = [], Action.Ability = [], Action.Item = []\<rparr>"

text \<open>Actions and states on which the model is evaluated.\<close>

definition attackAction :: Action where
  "attackAction = Action0\<lparr>Kind := ''Attack'', Attacker := ''hero'',
                           Action.Target := ''goblin'', Action.Weapon := ''w-hero''\<rparr>"

definition abilityAction :: Action where
  "abilityAction = Action0\<lparr>Kind := ''Ability'', Action.Actor := ''hero'',
                            Action.Ability := ''a-hero'', Action.Target := ''goblin''\<rparr>"

definition fleeAction :: Action where
  "fleeAction = Action0\<lparr>Kind := ''Flee'', Action.Actor := ''hero''\<rparr>"

definition ghostAction :: Action where
  "ghostAction = Action0\<lparr>Kind := ''Defend'', Action.Actor := ''ghost''\<rparr>"

definition defendPolicy :: "State \<Rightarrow> Action \<times> int" where
  "defendPolicy state = (Action0\<lparr>Kind := ''Defend'', Action.Actor := ''hero''\<rparr>, 7)"

definition ghostPolicy :: "State \<Rightarrow> Action \<times> int" where
  "ghostPolicy state = (ghostAction, 7)"

text \<open>The hero with the test ability still cooling down for two turns.\<close>

definition coolingState :: State where
  "coolingState =
     state0\<lparr>Characters := [hero\<lparr>AbilityCooldowns := Some (fmupd ''a-hero'' 2 fmempty)\<rparr>,
                             goblin]\<rparr>"

text \<open>The scenario of the specification: a player with speed 100 attempts to flee.\<close>

definition sprintState :: State where
  "sprintState = state0\<lparr>Characters := [hero\<lparr>Stats := (Stats hero)\<lparr>Speed := 100\<rparr>\<rparr>, goblin]\<rparr>"

text \<open>A player at one hit point whose ability is a heal of power \<open>-10\<close>.\<close>

definition drainState :: State where
  "drainState =
     state0\<lparr>Characters :=
       [hero\<lparr>Stats := (Stats hero)\<lparr>HP := 1\<rparr>,
              Abilities := [\<lparr>Ability.ID = ''a-hero'', Ability.Name = ''Drain'',
                            Cooldown = 3, Ability.Effect = ''heal'', Power = - 10\<rparr>]\<rparr>,
        goblin]\<rparr>"

subsection \<open>The store model: which memory the resolver writes\<close>

text \<open>
  A Go \<^verbatim>\<open>State\<close> value holds its \<^verbatim>\<open>Characters\<close> slice by reference: copying the struct
  copies the slice header, not the characters. For the question which memory
  \<^verbatim>\<open>ApplyAction\<close> writes, the backing arrays live in a store, a list of arrays indexed by
  address; a state value carries the address of its array, the other fields by value
  (\<^verbatim>\<open>TurnOrder\<close> is never written). Everything reachable from a character (its slices, its
  cooldown map) is kept with the array element: the JSON round trip of \<^verbatim>\<open>deepCopyState\<close>
  duplicates all of it, and no code path makes two arrays share any of it. Allocation appends
  a new array to the store; memory is never freed while it is reachable, so an address below
  the length of the store stays valid.

  Reads go through \<open>load\<close>, the value of a state in a store. Every assignment of the source
  through a \<^verbatim>\<open>*Character\<close> is a write \<open>update\<close> into the array of the state the handler was
  given. The fallback of \<^verbatim>\<open>deepCopyState\<close> to the shallow copy is taken only when
  \<^verbatim>\<open>json.Marshal\<close> or \<^verbatim>\<open>json.Unmarshal\<close> fails, which they do not on these types. A
  function returns the store it leaves behind also when it panics.
\<close>

type_synonym store = "Character list list"

record StateV =
  vRound :: int
  vCharacters :: nat
  vTurnOrder :: "ID list"
  vCurrentTurn :: int
  vIsComplete :: bool
  vWinner :: "string option"

record ResolutionV =
  vEvents :: "Event list"
  vState :: StateV
  vLogs :: "string list"

definition load :: "store \<Rightarrow> StateV \<Rightarrow> State" where
  "load st state =
     \<lparr>Round = vRound state, Characters = st ! vCharacters state,
      TurnOrder = vTurnOrder state, CurrentTurn = vCurrentTurn state,
      IsComplete = vIsComplete state, Winner = vWinner state\<rparr>"

definition loadResolution :: "store \<Rightarrow> ResolutionV \<Rightarrow> Resolution" where
  "loadResolution st res =
     \<lparr>Events = vEvents res, State = load st (vState res), Logs = vLogs res\<rparr>"

definition update :: "store \<Rightarrow> StateV \<Rightarrow> nat \<Rightarrow> (Character \<Rightarrow> Character) \<Rightarrow> store" where
  "update st state i f =
     st[vCharacters state := (st ! vCharacters state)[i := f (st ! vCharacters state ! i)]]"

definition deepCopyStateM :: "store \<Rightarrow> StateV \<Rightarrow> store \<times> StateV" where
  "deepCopyStateM st state =
     (st @ [st ! vCharacters state], state\<lparr>vCharacters := length st\<rparr>)"

definition advanceTurnM ::
  "((string, int) fmap \<Rightarrow> string list) \<Rightarrow> store \<Rightarrow> StateV \<Rightarrow> store \<times> (panic + StateV)" where
  "advanceTurnM ord st state =
     (let (st1, updatedState) = deepCopyStateM st state;
          st2 = st1[vCharacters updatedState :=
                      map (tickCharacter ord) (st1 ! vCharacters updatedState)];
          cs = st2 ! vCharacters updatedState;
          s2 = (if alivePlayers cs = 0
                then updatedState\<lparr>vIsComplete := True, vWinner := Some ''enemy''\<rparr>
                else if aliveEnemies cs = 0
                then updatedState\<lparr>vIsComplete := True, vWinner := Some ''player''\<rparr>
                else updatedState)
      in if \<not> vIsComplete s2
         then (if length (vTurnOrder s2) = 0 then (st2, Inl IntegerDivideByZero)
               else (let s3 = s2\<lparr>vCurrentTurn :=
                                   (vCurrentTurn s2 + 1) smod int (length (vTurnOrder s2))\<rparr>
                     in if vCurrentTurn s3 = 0 then (st2, Inr (s3\<lparr>vRound := vRound s3 + 1\<rparr>))
                        else (st2, Inr s3)))
         else (st2, Inr s2))"

definition advanceAndReturnM ::
  "((string, int) fmap \<Rightarrow> string list) \<Rightarrow> store \<Rightarrow> StateV \<Rightarrow> Event list \<Rightarrow> string list
   \<Rightarrow> store \<times> (panic + ResolutionV)" where
  "advanceAndReturnM ord st state events logs =
     (case advanceTurnM ord st state of
        (st', Inl p) \<Rightarrow> (st', Inl p)
      | (st', Inr updatedState) \<Rightarrow>
          (st', Inr \<lparr>vEvents = events, vState = updatedState, vLogs = logs\<rparr>))"

definition handleAttackM ::
  "((string, int) fmap \<Rightarrow> string list) \<Rightarrow> 'g MathRand \<Rightarrow> store \<Rightarrow> StateV \<Rightarrow> Action \<Rightarrow> 'g
   \<Rightarrow> Event list \<Rightarrow> string list \<Rightarrow> store \<times> (panic + ResolutionV)" where
  "handleAttackM ord R st state action rng events logs =
     (case (GetCharacterByID (load st state) (Attacker action),
            GetCharacterByID (load st state) (Action.Target action)) of
        (Some ai, Some ti) \<Rightarrow>
          (let attacker = st ! vCharacters state ! ai;
               target = st ! vCharacters state ! ti;
               found = find (\<lambda>w. Weapon.ID w = Action.Weapon action) (Weapons attacker);
               logs1 = (case found of None \<Rightarrow> logs @ [''Weapon not found - using default'']
                        | Some w \<Rightarrow> logs);
               weapon = (case found of None \<Rightarrow> Fist | Some w \<Rightarrow> w);
               (attackRoll, rng1) = RollD20 R rng;
               hit = (attackRoll + Attack (Stats attacker) \<ge> Defense (Stats target) + 10)
           in if hit
              then (let baseDamage = Damage weapon + (Attack (Stats attacker) sdiv 2);
                        (damageRoll, rng2) = RollD6 R rng1;
                        totalDamage = max 1 (baseDamage + damageRoll - Defense (Stats target));
                        newHP = max 0 (HP (Stats target) - totalDamage);
                        st1 = update st state ti (\<lambda>c. c\<lparr>Stats := (Stats c)\<lparr>HP := newHP\<rparr>\<rparr>);
                        events1 = events @ [Event0\<lparr>Event.Type := ''damage'',
                                     Event.Target := Character.ID target,
                                     Amount := totalDamage,
                                     Source := Character.ID attacker\<rparr>];
                        logs2 = logs1 @ [Character.Name attacker @ '' attacks ''
                                     @ Character.Name target @ '' with '' @ Weapon.Name weapon
                                     @ '' for '' @ itoa totalDamage @ '' damage!'']
                    in if newHP = 0
                       then advanceAndReturnM ord st1 state
                              (events1 @ [Event0\<lparr>Event.Type := ''death'',
                                            Event.Target := Character.ID target\<rparr>])
                              (logs2 @ [Character.Name target @ '' has been defeated!''])
                       else advanceAndReturnM ord st1 state events1 logs2)
              else advanceAndReturnM ord st state events
                     (logs1 @ [Character.Name attacker @ '' misses ''
                               @ Character.Name target @ ''!'']))
      | _ \<Rightarrow> (st, Inr \<lparr>vEvents = events, vState = state,
                        vLogs = logs @ [''Invalid attack action'']\<rparr>))"

definition handleDefendM ::
  "((string, int) fmap \<Rightarrow> string list) \<Rightarrow> 'g MathRand \<Rightarrow> store \<Rightarrow> StateV \<Rightarrow> Action \<Rightarrow> 'g
   \<Rightarrow> Event list \<Rightarrow> string list \<Rightarrow> store \<times> (panic + ResolutionV)" where
  "handleDefendM ord R st state action rng events logs =
     (case GetCharacterByID (load st state) (Action.Actor action) of
        None \<Rightarrow> (st, Inr \<lparr>vEvents = events, vState = state,
                          vLogs = logs @ [''Invalid defend action'']\<rparr>)
      | Some ci \<Rightarrow>
          (let character = st ! vCharacters state ! ci;
               st1 = update st state ci
                       (\<lambda>c. c\<lparr>Stats := (Stats c)\<lparr>Defense := Defense (Stats character) + 2\<rparr>\<rparr>);
               logs1 = logs @ [Character.Name character @ '' takes a defensive stance!'']
           in advanceAndReturnM ord st1 state events logs1))"

definition handleAbilityM ::
  "((string, int) fmap \<Rightarrow> string list) \<Rightarrow> 'g MathRand \<Rightarrow> store \<Rightarrow> StateV \<Rightarrow> Action \<Rightarrow> 'g
   \<Rightarrow> Event list \<Rightarrow> string list \<Rightarrow> store \<times> (panic + ResolutionV)" where
  "handleAbilityM ord R st state action rng events logs =
     (case GetCharacterByID (load st state) (Action.Actor action) of
        None \<Rightarrow> (st, Inr \<lparr>vEvents = events, vState = state,
                          vLogs = logs @ [''Invalid ability action'']\<rparr>)
      | Some ci \<Rightarrow>
          (let character = st ! vCharacters state ! ci
           in case find (\<lambda>a. Ability.ID a = Action.Ability action) (Abilities character) of
                None \<Rightarrow> (st, Inr \<lparr>vEvents = events, vState = state,
                                  vLogs = logs @ [''Ability not found'']\<rparr>)
              | Some ability \<Rightarrow>
                  (let cooldownKey = Ability.ID ability;
                       currentCooldown = cooldownOf character cooldownKey
                   in if currentCooldown > 0
                      then (st, Inr \<lparr>vEvents = events, vState = state,
                                     vLogs = logs @ [Ability.Name ability @ '' is on cooldown!'']\<rparr>)
                      else
                        (case AbilityCooldowns character of
                           None \<Rightarrow> (st, Inl AssignmentToNilMap)
                         | Some m \<Rightarrow>
                             (let st1 = update st state ci
                                          (\<lambda>c. c\<lparr>AbilityCooldowns :=
                                                    Some (fmupd cooldownKey (Cooldown ability) m)\<rparr>);
                                  events1 = events @ [Event0\<lparr>Event.Type := ''ability_used'',
                                               Event.Actor := Character.ID character,
                                               Event.Ability := Ability.ID ability,
                                               Event.Target := Action.Target action\<rparr>]
                              in if Ability.Effect ability = ''damage''
                                 then (if Action.Target action \<noteq> []
                                       then (case GetCharacterByID (load st1 state)
                                                    (Action.Target action) of
                                               None \<Rightarrow> advanceAndReturnM ord st1 state events1 logs
                                             | Some ti \<Rightarrow>
                                                 (let target = st1 ! vCharacters state ! ti;
                                                      (roll, rng1) = RollD6 R rng;
                                                      damage = Power ability + roll;
                                                      newHP = max 0 (HP (Stats target) - damage);
                                                      st2 = update st1 state ti
                                                              (\<lambda>c. c\<lparr>Stats := (Stats c)\<lparr>HP := newHP\<rparr>\<rparr>);
                                                      events2 = events1 @ [Event0\<lparr>
                                                        Event.Type := ''damage'',
                                                        Event.Target := Character.ID target,
                                                        Amount := damage,
                                                        Source := Character.ID character\<rparr>];
                                                      logs2 = logs @ [Character.Name character
                                                        @ '' uses '' @ Ability.Name ability
                                                        @ '' on '' @ Character.Name target
                                                        @ '' for '' @ itoa damage @ '' damage!'']
                                                  in if newHP = 0
                                                     then advanceAndReturnM ord st2 state
                                                            (events2 @ [Event0\<lparr>
                                                               Event.Type := ''death'',
                                                               Event.Target := Character.ID target\<rparr>])
                                                            (logs2 @ [Character.Name target
                                                               @ '' has been defeated!''])
                                                     else advanceAndReturnM ord st2 state
                                                            events2 logs2))
                                       else advanceAndReturnM ord st1 state events1 logs)
                                 else if Ability.Effect ability = ''heal''
                                 then (let (roll, rng1) = RollD6 R rng;
                                           healAmount = Power ability + roll;
                                           character1 = st1 ! vCharacters state ! ci;
                                           st2 = update st1 state ci
                                                   (\<lambda>c. c\<lparr>Stats := (Stats c)\<lparr>HP :=
                                                      min (MaxHP (Stats character1))
                                                          (HP (Stats character1) + healAmount)\<rparr>\<rparr>);
                                           events2 = events1 @ [Event0\<lparr>Event.Type := ''heal'',
                                                        Event.Target := Character.ID character,
                                                        Amount := healAmount\<rparr>];
                                           logs2 = logs @ [Character.Name character @ '' uses ''
                                                     @ Ability.Name ability @ '' and heals for ''
                                                     @ itoa healAmount @ '' HP!'']
                                       in advanceAndReturnM ord st2 state events2 logs2)
                                 else advanceAndReturnM ord st1 state events1 logs)))))"

definition handleUseItemM ::
  "((string, int) fmap \<Rightarrow> string list) \<Rightarrow> 'g MathRand \<Rightarrow> store \<Rightarrow> StateV \<Rightarrow> Action \<Rightarrow> 'g
   \<Rightarrow> Event list \<Rightarrow> string list \<Rightarrow> store \<times> (panic + ResolutionV)" where
  "handleUseItemM ord R st state action rng events logs =
     (case GetCharacterByID (load st state) (Action.Actor action) of
        None \<Rightarrow> (st, Inr \<lparr>vEvents = events, vState = state,
                          vLogs = logs @ [''Invalid item action'']\<rparr>)
      | Some ci \<Rightarrow>
          (let character = st ! vCharacters state ! ci
           in case findIndex (\<lambda>i. Item.ID i = Action.Item action) (Items character) of
                None \<Rightarrow> (st, Inr \<lparr>vEvents = events, vState = state,
                                  vLogs = logs @ [''Item not found'']\<rparr>)
              | Some itemIndex \<Rightarrow>
                  (let st1 = update st state ci
                               (\<lambda>c. c\<lparr>Items := take itemIndex (Items character)
                                                  @ drop (Suc itemIndex) (Items character)\<rparr>);
                       item = itemAfterRemoval (Items character) itemIndex;
                       events1 = events @ [Event0\<lparr>Event.Type := ''item_used'',
                                    Event.Actor := Character.ID character,
                                    Event.Item := Item.ID item\<rparr>]
                   in if Contains (Item.Name item) ''Potion''
                      then (let (roll, rng1) = RollD6 R rng;
                                healAmount = 20 + roll;
                                character1 = st1 ! vCharacters state ! ci;
                                st2 = update st1 state ci
                                        (\<lambda>c. c\<lparr>Stats := (Stats c)\<lparr>HP :=
                                           min (MaxHP (Stats character1))
                                               (HP (Stats character1) + healAmount)\<rparr>\<rparr>);
                                events2 = events1 @ [Event0\<lparr>Event.Type := ''heal'',
                                             Event.Target := Character.ID character,
                                             Amount := healAmount\<rparr>];
                                logs2 = logs @ [Character.Name character @ '' uses ''
                                          @ Item.Name item @ '' and heals for ''
                                          @ itoa healAmount @ '' HP!'']
                            in advanceAndReturnM ord st2 state events2 logs2)
                      else advanceAndReturnM ord st1 state events1 logs)))"

definition handleFleeM ::
  "((string, int) fmap \<Rightarrow> string list) \<Rightarrow> 'g MathRand \<Rightarrow> store \<Rightarrow> StateV \<Rightarrow> Action \<Rightarrow> 'g
   \<Rightarrow> Event list \<Rightarrow> string list \<Rightarrow> store \<times> (panic + ResolutionV)" where
  "handleFleeM ord R st state action rng events logs =
     (case GetCharacterByID (load st state) (Action.Actor action) of
        None \<Rightarrow> (st, Inr \<lparr>vEvents = events, vState = state,
                          vLogs = logs @ [''Invalid flee action'']\<rparr>)
      | Some ci \<Rightarrow>
          (let character = st ! vCharacters state ! ci;
               (fleeRoll, rng1) = RollD20 R rng;
               success = (fleeRoll + Speed (Stats character) \<ge> 15)
           in if success
              then (let events1 = events @ [Event0\<lparr>Event.Type := ''flee'',
                                     Event.Actor := Character.ID character\<rparr>];
                        logs1 = logs @ [Character.Name character
                                  @ '' successfully flees from combat!''];
                        winner = ''player'';
                        updatedState = \<lparr>vRound = vRound state,
                                        vCharacters = vCharacters state,
                                        vTurnOrder = vTurnOrder state,
                                        vCurrentTurn = vCurrentTurn state,
                                        vIsComplete = True,
                                        vWinner = Some winner\<rparr>
                    in (st, Inr \<lparr>vEvents = events1, vState = updatedState, vLogs = logs1\<rparr>))
              else advanceAndReturnM ord st state events
                     (logs @ [Character.Name character @ '' fails to flee!''])))"

definition ApplyActionM ::
  "((string, int) fmap \<Rightarrow> string list) \<Rightarrow> 'g MathRand \<Rightarrow> store \<Rightarrow> StateV \<Rightarrow> Action \<Rightarrow> int
   \<Rightarrow> store \<times> (panic + ResolutionV)" where
  "ApplyActionM ord R st state action seed =
     (let rng = NewSeededRNG R seed;
          events = [];
          logs = [''Actor bypass: Direct mutation used''];
          (st1, newState) = deepCopyStateM st state
      in case GetCharacterByID (load st1 newState) (getActorID action) of
           None \<Rightarrow> (st1, Inr \<lparr>vEvents = events, vState = state,
                              vLogs = logs @ [''Invalid action: character not found'']\<rparr>)
         | Some ci \<Rightarrow>
             if \<not> (\<exists>k \<in> set validKinds. Kind action = k)
             then (st1, Inr \<lparr>vEvents = events, vState = state,
                             vLogs = logs @ [''Invalid action kind'']\<rparr>)
             else if Kind action = ''Attack''
                  then handleAttackM ord R st1 newState action rng events logs
             else if Kind action = ''Defend''
                  then handleDefendM ord R st1 newState action rng events logs
             else if Kind action = ''Ability''
                  then handleAbilityM ord R st1 newState action rng events logs
             else if Kind action = ''UseItem''
                  then handleUseItemM ord R st1 newState action rng events logs
             else if Kind action = ''Flee''
                  then handleFleeM ord R st1 newState action rng events logs
             else (st1, Inr \<lparr>vEvents = events, vState = state,
                             vLogs = logs @ [''Unknown action kind'']\<rparr>))"

text \<open>The store and state value of the test encounter.\<close>

definition store0 :: store where
  "store0 = [hero, goblin] # []"

definition stateV0 :: StateV where
  "stateV0 = \<lparr>vRound = 1, vCharacters = 0, vTurnOrder = [''hero'', ''goblin''],
              vCurrentTurn = 0, vIsComplete = False, vWinner = None\<rparr>"

text \<open>
  Going from store \<open>st\<close> to store \<open>st'\<close>, nothing was freed and only arrays with an address in
  \<open>W\<close>, or arrays allocated on the way, were written.
\<close>

definition writesOnly :: "store \<Rightarrow> store \<Rightarrow> nat set \<Rightarrow> bool" where
  "writesOnly st st' W =
     (length st \<le> length st' \<and> (\<forall>addr < length st. addr \<notin> W \<longrightarrow> st' ! addr = st ! addr))"

text \<open>The value a result of the store model stands for: its states read in the final store.\<close>

definition valueOf :: "store \<times> (panic + ResolutionV) \<Rightarrow> panic + Resolution" where
  "valueOf x = (case x of (st', Inl p) \<Rightarrow> Inl p | (st', Inr res) \<Rightarrow> Inr (loadResolution st' res))"

section \<open>Properties\<close>

subsection \<open>Searching slices\<close>

lemma findIndex_Some_iff:
  "findIndex P xs = Some i \<longleftrightarrow> i < length xs \<and> P (xs ! i) \<and> (\<forall>j < i. \<not> P (xs ! j))"
proof (induction xs arbitrary: i)
  case Nil
  show ?case by simp
next
  case (Cons x xs)
  show ?case
  proof (cases "P x")
    case True
    then show ?thesis by (cases i) auto
  next
    case False
    show ?thesis
    proof (cases i)
      case 0
      with False show ?thesis by simp
    next
      case (Suc k)
      have "(\<forall>j < Suc k. \<not> P ((x # xs) ! j)) \<longleftrightarrow> (\<forall>j < k. \<not> P (xs ! j))"
        using False by (auto simp: less_Suc_eq_0_disj)
      with False Suc Cons.IH [of k] show ?thesis by auto
    qed
  qed
qed

lemma findIndex_None_iff: "findIndex P xs = None \<longleftrightarrow> (\<forall>x \<in> set xs. \<not> P x)"
  by (induction xs) auto

lemma findIndex_less: "findIndex P xs = Some i \<Longrightarrow> i < length xs"
  by (simp add: findIndex_Some_iff)

subsection \<open>The cooldown loop does not depend on the order of the keys\<close>

lemma decreaseCooldowns_lookup:
  "distinct keys \<Longrightarrow>
   fmlookup (decreaseCooldowns m keys) k =
     (if k \<in> set keys then map_option decay (fmlookup m k) else fmlookup m k)"
proof (induction keys arbitrary: m)
  case Nil
  show ?case by simp
next
  case (Cons a keys)
  then have d: "distinct keys" and a: "a \<notin> set keys" by auto
  show ?case
    using a by (auto simp: Cons.IH [OF d] decay_def [abs_def] split: option.splits)
qed

lemma decreaseCooldowns_valid:
  assumes "valid_order ord"
  shows "decreaseCooldowns m (ord m) = fmmap decay m"
proof (rule fmap_ext)
  fix k
  from assms have d: "distinct (ord m)" and s: "set (ord m) = fmdom' m"
    by (auto simp: valid_order_def)
  show "fmlookup (decreaseCooldowns m (ord m)) k = fmlookup (fmmap decay m) k"
    by (cases "fmlookup m k") (auto simp: decreaseCooldowns_lookup [OF d] s fmdom'_notI fmdom'I)
qed


lemma valid_order_sortedKeys: "valid_order sortedKeys"
  by (simp add: valid_order_def sortedKeys_def fmdom'_alt_def sorted_list_of_fset.rep_eq)

lemma valid_order_reverseKeys: "valid_order reverseKeys"
  by (simp add: valid_order_def reverseKeys_def fmdom'_alt_def sorted_list_of_fset.rep_eq)

lemma tickCharacter_valid:
  assumes "valid_order ord" "valid_order ord'"
  shows "tickCharacter ord c = tickCharacter ord' c"
  by (simp add: tickCharacter_def decreaseCooldowns_valid [OF assms(1)]
      decreaseCooldowns_valid [OF assms(2)] split: option.splits)

lemma advanceTurn_valid:
  assumes "valid_order ord" "valid_order ord'"
  shows "advanceTurn ord s = advanceTurn ord' s"
proof -
  have "tickCharacter ord = tickCharacter ord'"
    by (rule ext) (rule tickCharacter_valid [OF assms])
  then show ?thesis by (simp add: advanceTurn_def)
qed

lemma advanceAndReturn_valid:
  assumes "valid_order ord" "valid_order ord'"
  shows "advanceAndReturn ord s ev lg = advanceAndReturn ord' s ev lg"
  by (simp add: advanceAndReturn_def advanceTurn_valid [OF assms])

subsection \<open>Determinism\<close>

lemma handleAttack_valid:
  assumes "valid_order ord" "valid_order ord'"
  shows "handleAttack ord R s a g ev lg = handleAttack ord' R s a g ev lg"
  unfolding handleAttack_def advanceAndReturn_valid [OF assms] ..

lemma handleDefend_valid:
  assumes "valid_order ord" "valid_order ord'"
  shows "handleDefend ord R s a g ev lg = handleDefend ord' R s a g ev lg"
  unfolding handleDefend_def advanceAndReturn_valid [OF assms] ..

lemma handleAbility_valid:
  assumes "valid_order ord" "valid_order ord'"
  shows "handleAbility ord R s a g ev lg = handleAbility ord' R s a g ev lg"
  unfolding handleAbility_def advanceAndReturn_valid [OF assms] ..

lemma handleUseItem_valid:
  assumes "valid_order ord" "valid_order ord'"
  shows "handleUseItem ord R s a g ev lg = handleUseItem ord' R s a g ev lg"
  unfolding handleUseItem_def advanceAndReturn_valid [OF assms] ..

lemma handleFlee_valid:
  assumes "valid_order ord" "valid_order ord'"
  shows "handleFlee ord R s a g ev lg = handleFlee ord' R s a g ev lg"
  unfolding handleFlee_def advanceAndReturn_valid [OF assms] ..

text \<open>
  C1. Two calls of \<^verbatim>\<open>ApplyAction\<close> on structurally equal state, action and seed return the
  same result, whatever order the Go runtime iterates the cooldown maps in on either call:
  the same events, the same logs and the same resulting state (or the same panic). The
  result is a function of state, action and seed alone: the generator is built from the seed
  inside the call, and the only unordered iteration, the cooldown loop, does not let its
  order show.
\<close>

theorem ApplyAction_deterministic:
  assumes "valid_order ord1" and "valid_order ord2"
    and "s1 = s2" and "a1 = a2" and "n1 = n2"
  shows "ApplyAction ord1 R s1 a1 n1 = ApplyAction ord2 R s2 a2 n2"
  unfolding ApplyAction_def assms(3-5)
    handleAttack_valid [OF assms(1,2)] handleDefend_valid [OF assms(1,2)]
    handleAbility_valid [OF assms(1,2)] handleUseItem_valid [OF assms(1,2)]
    handleFlee_valid [OF assms(1,2)] ..

theorem ApplyAction_deterministic_witness:
  "valid_order sortedKeys \<and> valid_order reverseKeys
   \<and> ApplyAction sortedKeys lcg coolingState attackAction 12345
     = ApplyAction reverseKeys lcg coolingState attackAction 12345"
  using ApplyAction_deterministic [OF valid_order_sortedKeys valid_order_reverseKeys refl refl refl,
      of lcg coolingState attackAction 12345]
    valid_order_sortedKeys valid_order_reverseKeys
  by blast

subsection \<open>Soft failures of ApplyAction\<close>

text \<open>
  C5. When the action's actor id is the id of no character of the state, \<^verbatim>\<open>ApplyAction\<close> does
  not panic: it returns a Resolution with no events, the original input state, and the logs
  ending in the character-not-found line.
\<close>

theorem actor_not_found_soft_fails:
  assumes "getActorID a \<notin> Character.ID ` set (Characters s)"
  shows "ApplyAction ord R s a n =
           Inr \<lparr>Events = [], State = s,
                Logs = [''Actor bypass: Direct mutation used'',
                        ''Invalid action: character not found'']\<rparr>"
proof -
  have "GetCharacterByID s (getActorID a) = None"
    using assms by (force simp: GetCharacterByID_def findIndex_None_iff)
  then show ?thesis
    by (simp add: ApplyAction_def deepCopyState_def)
qed

theorem actor_not_found_soft_fails_witness:
  "getActorID ghostAction \<notin> Character.ID ` set (Characters state0)
   \<and> ApplyAction sortedKeys lcg state0 ghostAction 12345 =
           Inr \<lparr>Events = [], State = state0,
                Logs = [''Actor bypass: Direct mutation used'',
                        ''Invalid action: character not found'']\<rparr>"
proof -
  have h: "getActorID ghostAction \<notin> Character.ID ` set (Characters state0)"
    by (simp add: getActorID_def ghostAction_def Action0_def state0_def hero_def goblin_def
        createTestCharacter_def)
  show ?thesis
    using h actor_not_found_soft_fails [OF h, of sortedKeys lcg 12345] by simp
qed

text \<open>
  C7. An Ability action whose actor and ability resolve while the ability's cooldown entry is
  positive soft-fails: the returned state is the input state (hit points, cooldowns,
  inventories, \<^verbatim>\<open>currentTurn\<close> and \<^verbatim>\<open>round\<close> as they were), no event is emitted, and the
  logs end in the on-cooldown line.
\<close>

theorem ability_on_cooldown_soft_fails:
  assumes "Kind a = ''Ability''"
    and "GetCharacterByID s (Action.Actor a) = Some ci"
    and "find (\<lambda>b. Ability.ID b = Action.Ability a) (Abilities (Characters s ! ci))
           = Some ability"
    and "cooldownOf (Characters s ! ci) (Ability.ID ability) > 0"
  shows "ApplyAction ord R s a n =
           Inr \<lparr>Events = [], State = s,
                Logs = [''Actor bypass: Direct mutation used'',
                        Ability.Name ability @ '' is on cooldown!'']\<rparr>"
  using assms
  by (simp add: ApplyAction_def deepCopyState_def getActorID_def validKinds_def
      handleAbility_def cooldownOf_def)

theorem ability_on_cooldown_soft_fails_witness:
  "Kind abilityAction = ''Ability''
   \<and> GetCharacterByID coolingState (Action.Actor abilityAction) = Some 0
   \<and> find (\<lambda>b. Ability.ID b = Action.Ability abilityAction)
        (Abilities (Characters coolingState ! 0)) = Some (hd (Abilities hero))
   \<and> cooldownOf (Characters coolingState ! 0) (Ability.ID (hd (Abilities hero))) > 0
   \<and> ApplyAction sortedKeys lcg coolingState abilityAction 12345 =
           Inr \<lparr>Events = [], State = coolingState,
                Logs = [''Actor bypass: Direct mutation used'',
                        ''Test Ability is on cooldown!'']\<rparr>"
proof -
  have h1: "Kind abilityAction = ''Ability''"
    by (simp add: abilityAction_def Action0_def)
  have h2: "GetCharacterByID coolingState (Action.Actor abilityAction) = Some 0"
    by (simp add: GetCharacterByID_def coolingState_def state0_def abilityAction_def Action0_def
        hero_def createTestCharacter_def)
  have h3: "find (\<lambda>b. Ability.ID b = Action.Ability abilityAction)
        (Abilities (Characters coolingState ! 0)) = Some (hd (Abilities hero))"
    by (simp add: coolingState_def state0_def abilityAction_def Action0_def
        hero_def createTestCharacter_def)
  have h4: "cooldownOf (Characters coolingState ! 0) (Ability.ID (hd (Abilities hero))) > 0"
    by (simp add: cooldownOf_def coolingState_def state0_def hero_def createTestCharacter_def)
  have n: "Ability.Name (hd (Abilities hero)) = ''Test Ability''"
    by (simp add: hero_def createTestCharacter_def)
  show ?thesis
    using h1 h2 h3 h4 ability_on_cooldown_soft_fails [OF h1 h2 h3 h4, of sortedKeys lcg 12345]
    by (simp add: n)
qed

subsection \<open>The bypass line\<close>

lemma advanceAndReturn_Logs: "advanceAndReturn ord s ev lg = Inr r \<Longrightarrow> Logs r = lg"
  by (auto simp: advanceAndReturn_def split: sum.splits)

lemma handleAttack_Logs:
  "handleAttack ord R s a g ev lg = Inr r \<Longrightarrow> prefix lg (Logs r)"
  by (auto simp: handleAttack_def Let_def dest!: advanceAndReturn_Logs
      split: option.splits prod.splits if_splits)

lemma handleDefend_Logs:
  "handleDefend ord R s a g ev lg = Inr r \<Longrightarrow> prefix lg (Logs r)"
  by (auto simp: handleDefend_def Let_def dest!: advanceAndReturn_Logs
      split: option.splits prod.splits if_splits)

lemma handleAbility_Logs:
  "handleAbility ord R s a g ev lg = Inr r \<Longrightarrow> prefix lg (Logs r)"
  by (auto simp: handleAbility_def Let_def dest!: advanceAndReturn_Logs
      split: option.splits prod.splits if_splits)

lemma handleUseItem_Logs:
  "handleUseItem ord R s a g ev lg = Inr r \<Longrightarrow> prefix lg (Logs r)"
  by (auto simp: handleUseItem_def Let_def dest!: advanceAndReturn_Logs
      split: option.splits prod.splits if_splits)

lemma handleFlee_Logs:
  "handleFlee ord R s a g ev lg = Inr r \<Longrightarrow> prefix lg (Logs r)"
  by (auto simp: handleFlee_def Let_def dest!: advanceAndReturn_Logs
      split: option.splits prod.splits if_splits)

lemma ApplyAction_Logs_prefix:
  assumes "ApplyAction ord R s a n = Inr r"
  shows "prefix [''Actor bypass: Direct mutation used''] (Logs r)"
  using assms
  by (auto simp: ApplyAction_def Let_def
      dest: handleAttack_Logs handleDefend_Logs handleAbility_Logs handleUseItem_Logs
        handleFlee_Logs
      split: option.splits if_splits)

text \<open>
  C10. Whenever \<^verbatim>\<open>ApplyAction\<close> returns a Resolution, its logs are non-empty and their first
  element is \<^verbatim>\<open>"Actor bypass: Direct mutation used"\<close>; every handler and every error path only
  appends to the logs it is given.
\<close>

theorem logs_begin_with_bypass_line:
  assumes "ApplyAction ord R s a n = Inr r"
  shows "Logs r \<noteq> [] \<and> hd (Logs r) = ''Actor bypass: Direct mutation used''"
  using ApplyAction_Logs_prefix [OF assms] by (auto simp: prefix_def)

theorem logs_begin_with_bypass_line_witness:
  "ApplyAction sortedKeys lcg state0 ghostAction 12345 =
     Inr \<lparr>Events = [], State = state0,
          Logs = [''Actor bypass: Direct mutation used'',
                  ''Invalid action: character not found'']\<rparr>
   \<and> Logs \<lparr>Events = [], State = state0,
          Logs = [''Actor bypass: Direct mutation used'',
                  ''Invalid action: character not found'']\<rparr> \<noteq> []
   \<and> hd (Logs \<lparr>Events = [], State = state0,
          Logs = [''Actor bypass: Direct mutation used'',
                  ''Invalid action: character not found'']\<rparr>)
       = ''Actor bypass: Direct mutation used''"
proof -
  have h: "ApplyAction sortedKeys lcg state0 ghostAction 12345 =
     Inr \<lparr>Events = [], State = state0,
          Logs = [''Actor bypass: Direct mutation used'',
                  ''Invalid action: character not found'']\<rparr>"
    by (simp add: ApplyAction_def deepCopyState_def GetCharacterByID_def getActorID_def
        ghostAction_def Action0_def state0_def hero_def goblin_def createTestCharacter_def)
  show ?thesis
    using h logs_begin_with_bypass_line [OF h] by simp
qed

subsection \<open>The Turn Advancer\<close>

lemma tickCharacter_Stats [simp]:
  "HP (Stats (tickCharacter ord c)) = HP (Stats c)"
  "MaxHP (Stats (tickCharacter ord c)) = MaxHP (Stats c)"
  "Attack (Stats (tickCharacter ord c)) = Attack (Stats c)"
  "Speed (Stats (tickCharacter ord c)) = Speed (Stats c)"
  by (simp_all add: tickCharacter_def Let_def split: option.splits)

lemma tickCharacter_fields [simp]:
  "Character.ID (tickCharacter ord c) = Character.ID c"
  "Character.Name (tickCharacter ord c) = Character.Name c"
  "IsPlayer (tickCharacter ord c) = IsPlayer c"
  "Weapons (tickCharacter ord c) = Weapons c"
  "Abilities (tickCharacter ord c) = Abilities c"
  "Items (tickCharacter ord c) = Items c"
  by (simp_all add: tickCharacter_def Let_def split: option.splits)

lemma advanceTurn_Inr:
  assumes "advanceTurn ord s = Inr s'"
  shows "Characters s' = map (tickCharacter ord) (Characters s)"
    and "TurnOrder s' = TurnOrder s"
  using assms
  by (auto simp: advanceTurn_def deepCopyState_def Let_def split: if_splits)

lemma advanceTurn_total:
  assumes "TurnOrder s \<noteq> []"
  shows "\<exists>s'. advanceTurn ord s = Inr s'"
  using assms by (simp add: advanceTurn_def deepCopyState_def Let_def)

lemma advanceAndReturn_total:
  assumes "TurnOrder s \<noteq> []"
  shows "\<exists>s'. advanceAndReturn ord s ev lg = Inr \<lparr>Events = ev, State = s', Logs = lg\<rparr>
              \<and> Characters s' = map (tickCharacter ord) (Characters s)
              \<and> TurnOrder s' = TurnOrder s"
proof -
  from advanceTurn_total [OF assms] obtain s' where s': "advanceTurn ord s = Inr s'"
    by blast
  with advanceTurn_Inr [OF s'] show ?thesis
    by (simp add: advanceAndReturn_def)
qed

lemma advanceAndReturn_eq:
  "advanceTurn ord s = Inr s' \<Longrightarrow>
   advanceAndReturn ord s ev lg = Inr \<lparr>Events = ev, State = s', Logs = lg\<rparr>"
  by (simp add: advanceAndReturn_def)

lemma setHP_simps [simp]:
  "TurnOrder (setHP s i v) = TurnOrder s"
  "CurrentTurn (setHP s i v) = CurrentTurn s"
  "Round (setHP s i v) = Round s"
  "IsComplete (setHP s i v) = IsComplete s"
  "length (Characters (setHP s i v)) = length (Characters s)"
  by (simp_all add: setHP_def)



subsection \<open>Attack\<close>




subsection \<open>Flee\<close>

lemma State_rebuild:
  "\<lparr>Round = Round s, Characters = Characters s, TurnOrder = TurnOrder s,
    CurrentTurn = CurrentTurn s, IsComplete = b, Winner = w\<rparr>
   = s\<lparr>IsComplete := b, Winner := w\<rparr>"
  by (cases s) simp

lemma flee_success:
  assumes "Kind a = ''Flee''"
    and "GetCharacterByID s (Action.Actor a) = Some ci"
    and "RollD20 R (NewSeededRNG R n) = (d20, g1)"
    and "d20 + Speed (Stats (Characters s ! ci)) \<ge> 15"
  shows "ApplyAction ord R s a n =
           Inr \<lparr>Events = [Event0\<lparr>Event.Type := ''flee'',
                                  Event.Actor := Character.ID (Characters s ! ci)\<rparr>],
                State = s\<lparr>IsComplete := True, Winner := Some ''player''\<rparr>,
                Logs = [''Actor bypass: Direct mutation used'',
                        Character.Name (Characters s ! ci)
                        @ '' successfully flees from combat!'']\<rparr>"
  using assms
  by (simp add: ApplyAction_def deepCopyState_def getActorID_def validKinds_def handleFlee_def
      Let_def State_rebuild)

text \<open>
  C2, evaluated where the code departs from it. The hero is a player with speed 100; the
  flee roll is 9, so the flee succeeds. The Resolution holds the flee event, the state is
  the input state with \<^verbatim>\<open>isComplete\<close> set (characters, \<^verbatim>\<open>currentTurn\<close> and \<^verbatim>\<open>round\<close> untouched,
  the Turn Advancer not run), and the winner is \<^verbatim>\<open>"player"\<close>: the side that fled, not the
  opposing side. \<^verbatim>\<open>handleFlee\<close> sets \<^verbatim>\<open>winner := "player"\<close> whoever flees.
\<close>

theorem player_flee_declares_player_winner:
  "IsPlayer (Characters sprintState ! 0)
   \<and> GetCharacterByID sprintState (Action.Actor fleeAction) = Some 0
   \<and> RollD20 lcg (NewSeededRNG lcg 12345) = (9, 96382)
   \<and> ApplyAction sortedKeys lcg sprintState fleeAction 12345 =
        Inr \<lparr>Events = [Event0\<lparr>Event.Type := ''flee'', Event.Actor := ''hero''\<rparr>],
             State = sprintState\<lparr>IsComplete := True, Winner := Some ''player''\<rparr>,
             Logs = [''Actor bypass: Direct mutation used'',
                     ''Hero successfully flees from combat!'']\<rparr>"
proof -
  have h1: "Kind fleeAction = ''Flee''"
    by (simp add: fleeAction_def Action0_def)
  have h2: "GetCharacterByID sprintState (Action.Actor fleeAction) = Some 0"
    by (simp add: GetCharacterByID_def sprintState_def state0_def fleeAction_def Action0_def
        hero_def createTestCharacter_def)
  have h3: "RollD20 lcg (NewSeededRNG lcg 12345) = (9, 96382)"
    by (simp add: RollD20_def NewSeededRNG_def lcg_def)
  have h4: "9 + Speed (Stats (Characters sprintState ! 0)) \<ge> 15"
    by (simp add: sprintState_def state0_def)
  have p: "IsPlayer (Characters sprintState ! 0)"
    by (simp add: sprintState_def state0_def hero_def createTestCharacter_def)
  have c: "Character.ID (Characters sprintState ! 0) = ''hero''"
    "Character.Name (Characters sprintState ! 0) = ''Hero''"
    by (simp_all add: sprintState_def state0_def hero_def createTestCharacter_def)
  show ?thesis
    using p h2 h3 flee_success [OF h1 h2 h3 h4, of sortedKeys] by (simp add: c)
qed

subsection \<open>Hit points\<close>

text \<open>
  C3, evaluated where the code departs from it. The hero stands at 1 of 30 hit points, inside
  the bounds, and uses an ability with effect \<^verbatim>\<open>heal\<close> and power \<open>-10\<close>. The roll is 3, the
  heal amount \<open>-7\<close>, and \<^verbatim>\<open>min(maxHp, hp + healAmount)\<close> leaves the hero at \<open>-6\<close> hit points:
  the heal is clamped from above only.
\<close>

theorem negative_heal_breaks_hp_bounds:
  "map (\<lambda>c. (HP (Stats c), MaxHP (Stats c))) (Characters drainState) = [(1, 30), (30, 30)]
   \<and> Power (hd (Abilities (Characters drainState ! 0))) = - 10
   \<and> RollD6 lcg (NewSeededRNG lcg 12345) = (3, 96382)
   \<and> (\<exists>r. ApplyAction sortedKeys lcg drainState abilityAction 12345 = Inr r
          \<and> map (\<lambda>c. (HP (Stats c), MaxHP (Stats c))) (Characters (State r))
              = [(- 6, 30), (30, 30)])"
proof -
  have b: "map (\<lambda>c. (HP (Stats c), MaxHP (Stats c))) (Characters drainState)
             = [(1, 30), (30, 30)]"
    "Power (hd (Abilities (Characters drainState ! 0))) = - 10"
    by (simp_all add: drainState_def state0_def hero_def goblin_def createTestCharacter_def)
  have d6: "RollD6 lcg (NewSeededRNG lcg 12345) = (3, 96382)"
    by (simp add: RollD6_def NewSeededRNG_def lcg_def)
  have to: "TurnOrder (setHP (setCooldowns drainState 0 (fmupd ''a-hero'' 3 fmempty)) 0 (- 6))
              \<noteq> []"
    by (simp add: drainState_def state0_def setCooldowns_def)
  from advanceTurn_total [OF to] obtain s' where
    s': "advanceTurn sortedKeys
           (setHP (setCooldowns drainState 0 (fmupd ''a-hero'' 3 fmempty)) 0 (- 6)) = Inr s'"
    by blast
  have cs: "Characters s' = map (tickCharacter sortedKeys)
              (Characters (setHP (setCooldowns drainState 0 (fmupd ''a-hero'' 3 fmempty)) 0 (- 6)))"
    by (rule advanceTurn_Inr [OF s'])
  have hp: "map (\<lambda>c. (HP (Stats c), MaxHP (Stats c))) (Characters s') = [(- 6, 30), (30, 30)]"
    by (simp add: cs setHP_def setCooldowns_def drainState_def state0_def hero_def goblin_def
        createTestCharacter_def)
  have "\<exists>ev lg. ApplyAction sortedKeys lcg drainState abilityAction 12345
          = Inr \<lparr>Events = ev, State = s', Logs = lg\<rparr>"
    by (simp add: ApplyAction_def deepCopyState_def getActorID_def validKinds_def
        handleAbility_def GetCharacterByID_def abilityAction_def Action0_def
        drainState_def state0_def hero_def goblin_def createTestCharacter_def
        RollD6_def NewSeededRNG_def lcg_def setCooldowns_def setHP_def
        advanceAndReturn_eq [OF s' [unfolded setCooldowns_def setHP_def drainState_def state0_def
          hero_def goblin_def createTestCharacter_def, simplified]])
  then show ?thesis
    using b d6 hp by auto
qed

subsection \<open>Cooldowns\<close>

lemma cooldownOf_tickCharacter:
  assumes "valid_order ord"
  shows "cooldownOf (tickCharacter ord c) key = decay (cooldownOf c key)"
  by (auto simp: tickCharacter_def cooldownOf_def Let_def decreaseCooldowns_valid [OF assms]
      decay_def split: option.splits)

lemma decay_pow: "0 \<le> c \<Longrightarrow> (decay ^^ N) c = max 0 (c - int N)"
  by (induction N) (auto simp: decay_def)

lemma advanceTurns_total:
  assumes "TurnOrder s \<noteq> []"
  shows "\<exists>s'. advanceTurns ord N s = Inr s' \<and> TurnOrder s' = TurnOrder s
           \<and> Characters s' = map (tickCharacter ord ^^ N) (Characters s)"
  using assms
proof (induction N arbitrary: s)
  case 0
  then show ?case by simp
next
  case (Suc N)
  from advanceTurn_total [OF Suc.prems] obtain s1 where s1: "advanceTurn ord s = Inr s1"
    by blast
  note a = advanceTurn_Inr [OF s1]
  from Suc.prems a have "TurnOrder s1 \<noteq> []" by simp
  from Suc.IH [OF this] obtain s' where
    "advanceTurns ord N s1 = Inr s'" "TurnOrder s' = TurnOrder s1"
    "Characters s' = map (tickCharacter ord ^^ N) (Characters s1)"
    by blast
  with s1 a show ?case
    by (simp add: funpow_swap1)
qed

lemma cooldownOf_tick_pow:
  assumes "valid_order ord"
  shows "cooldownOf ((tickCharacter ord ^^ N) c) key = (decay ^^ N) (cooldownOf c key)"
  by (induction N) (simp_all add: cooldownOf_tickCharacter [OF assms])

lemma setX_simps [simp]:
  "TurnOrder (setCooldowns s i m) = TurnOrder s"
  "length (Characters (setCooldowns s i m)) = length (Characters s)"
  "TurnOrder (setDefense s i v) = TurnOrder s"
  "length (Characters (setDefense s i v)) = length (Characters s)"
  "TurnOrder (setItems s i its) = TurnOrder s"
  "length (Characters (setItems s i its)) = length (Characters s)"
  by (simp_all add: setCooldowns_def setDefense_def setItems_def)

lemma cooldownOf_setHP [simp]:
  "cooldownOf (Characters (setHP s i v) ! j) key = cooldownOf (Characters s ! j) key"
  by (cases "i < length (Characters s)"; cases "i = j")
    (simp_all add: setHP_def cooldownOf_def list_update_beyond)

lemma cooldownOf_setCooldowns:
  "i < length (Characters s) \<Longrightarrow>
   cooldownOf (Characters (setCooldowns s i (fmupd key v m)) ! i) key = v"
  by (simp add: setCooldowns_def cooldownOf_def)

lemma handleAbility_uses:
  assumes "GetCharacterByID s (Action.Actor a) = Some ci"
    and "find (\<lambda>b. Ability.ID b = Action.Ability a) (Abilities (Characters s ! ci))
           = Some ability"
    and "AbilityCooldowns (Characters s ! ci) = Some m"
    and "cooldownOf (Characters s ! ci) (Ability.ID ability) \<le> 0"
    and Q: "\<And>st ev lg'. TurnOrder st = TurnOrder s \<Longrightarrow>
              length (Characters st) = length (Characters s) \<Longrightarrow>
              cooldownOf (Characters st ! ci) (Ability.ID ability) = Cooldown ability \<Longrightarrow>
              Q (advanceAndReturn ord st ev lg')"
  shows "Q (handleAbility ord R s a g [] lg)"
proof -
  have ci: "ci < length (Characters s)"
    using assms(1) by (simp add: GetCharacterByID_def findIndex_less)
  have nc: "\<not> 0 < (case fmlookup m (Ability.ID ability) of None \<Rightarrow> 0 | Some c \<Rightarrow> c)"
    using assms(3,4) by (simp add: cooldownOf_def)
  show ?thesis
    using assms(1-3) nc ci
    by (auto simp: handleAbility_def Let_def cooldownOf_setCooldowns
        split: option.splits prod.splits intro!: Q)
qed

lemma ability_use_cooldown:
  assumes "valid_order ord"
    and "Kind a = ''Ability''"
    and "GetCharacterByID s (Action.Actor a) = Some ci"
    and "find (\<lambda>b. Ability.ID b = Action.Ability a) (Abilities (Characters s ! ci))
           = Some ability"
    and "AbilityCooldowns (Characters s ! ci) = Some m"
    and "cooldownOf (Characters s ! ci) (Ability.ID ability) \<le> 0"
    and "0 \<le> Cooldown ability"
    and "TurnOrder s \<noteq> []"
  shows "\<exists>r. ApplyAction ord R s a n = Inr r
           \<and> cooldownOf (Characters (State r) ! ci) (Ability.ID ability)
               = max 0 (Cooldown ability - 1)
           \<and> (\<forall>N. \<exists>s'. advanceTurns ord N (State r) = Inr s'
                  \<and> cooldownOf (Characters s' ! ci) (Ability.ID ability)
                      = max 0 (Cooldown ability - 1 - int N))"
proof -
  let ?key = "Ability.ID ability"
  have ci: "ci < length (Characters s)"
    using assms(3) by (simp add: GetCharacterByID_def findIndex_less)
  have "\<exists>st ev lg'.
          handleAbility ord R s a (NewSeededRNG R n) [] [''Actor bypass: Direct mutation used'']
            = advanceAndReturn ord st ev lg'
          \<and> TurnOrder st = TurnOrder s
          \<and> length (Characters st) = length (Characters s)
          \<and> cooldownOf (Characters st ! ci) ?key = Cooldown ability"
    by (rule handleAbility_uses [OF assms(3-6)]) blast
  then obtain st ev lg' where
    h: "handleAbility ord R s a (NewSeededRNG R n) [] [''Actor bypass: Direct mutation used'']
          = advanceAndReturn ord st ev lg'"
    and to: "TurnOrder st = TurnOrder s"
    and len: "length (Characters st) = length (Characters s)"
    and cd: "cooldownOf (Characters st ! ci) ?key = Cooldown ability"
    by blast
  from to assms(8) have "TurnOrder st \<noteq> []" by simp
  from advanceTurn_total [OF this] obtain s1 where s1: "advanceTurn ord st = Inr s1"
    by blast
  note a1 = advanceTurn_Inr [OF s1]
  have r: "ApplyAction ord R s a n = Inr \<lparr>Events = ev, State = s1, Logs = lg'\<rparr>"
    using assms(2,3) h
    by (simp add: ApplyAction_def deepCopyState_def getActorID_def validKinds_def
        advanceAndReturn_eq [OF s1])
  have c0: "cooldownOf (tickCharacter ord (Characters st ! ci)) ?key
              = max 0 (Cooldown ability - 1)"
    using assms(7) by (simp add: cooldownOf_tickCharacter [OF assms(1)] cd decay_def)
  have c1: "cooldownOf (Characters s1 ! ci) ?key = max 0 (Cooldown ability - 1)"
    using ci len by (simp add: a1 c0)
  have "\<exists>s'. advanceTurns ord N s1 = Inr s'
          \<and> cooldownOf (Characters s' ! ci) ?key = max 0 (Cooldown ability - 1 - int N)" for N
  proof -
    from a1 to assms(8) have "TurnOrder s1 \<noteq> []" by simp
    from advanceTurns_total [OF this, of ord N] obtain s' where
      s': "advanceTurns ord N s1 = Inr s'"
      and cs: "Characters s' = map (tickCharacter ord ^^ N) (Characters s1)"
      by blast
    have "cooldownOf (Characters s' ! ci) ?key = (decay ^^ N) (max 0 (Cooldown ability - 1))"
      using ci len by (simp add: cs a1 cooldownOf_tick_pow [OF assms(1)] c0)
    also have "\<dots> = max 0 (Cooldown ability - 1 - int N)"
      using assms(7) by (simp add: decay_pow)
    finally show ?thesis using s' by blast
  qed
  with r c1 show ?thesis by simp
qed


text \<open>
  C6, as the code has it. An Ability action that is not on cooldown, used through an
  allocated cooldown map on a state with a non-empty turn order and an ability cooldown that
  is not negative: the handler sets the entry to \<open>ability.cooldown\<close> and then runs the Turn
  Advancer, so in the state the resolution returns the entry is
  \<open>max 0 (ability.cooldown - 1)\<close>; after \<open>N\<close> further invocations of the Turn Advancer it is
  \<open>max 0 (ability.cooldown - 1 - N)\<close>.
\<close>

theorem cooldown_after_ability_use:
  assumes "valid_order ord"
    and "Kind a = ''Ability''"
    and "GetCharacterByID s (Action.Actor a) = Some ci"
    and "find (\<lambda>b. Ability.ID b = Action.Ability a) (Abilities (Characters s ! ci))
           = Some ability"
    and "AbilityCooldowns (Characters s ! ci) = Some m"
    and "cooldownOf (Characters s ! ci) (Ability.ID ability) \<le> 0"
    and "0 \<le> Cooldown ability"
    and "TurnOrder s \<noteq> []"
  shows "\<exists>r. ApplyAction ord R s a n = Inr r
           \<and> cooldownOf (Characters (State r) ! ci) (Ability.ID ability)
               = max 0 (Cooldown ability - 1)
           \<and> (\<forall>N. \<exists>s'. advanceTurns ord N (State r) = Inr s'
                  \<and> cooldownOf (Characters s' ! ci) (Ability.ID ability)
                      = max 0 (Cooldown ability - 1 - int N))"
  by (rule ability_use_cooldown [OF assms])

lemma state0_ability_facts:
  "Kind abilityAction = ''Ability''"
  "GetCharacterByID state0 (Action.Actor abilityAction) = Some 0"
  "find (\<lambda>b. Ability.ID b = Action.Ability abilityAction) (Abilities (Characters state0 ! 0))
     = Some (hd (Abilities hero))"
  "AbilityCooldowns (Characters state0 ! 0) = Some fmempty"
  "cooldownOf (Characters state0 ! 0) (Ability.ID (hd (Abilities hero))) \<le> 0"
  "0 \<le> Cooldown (hd (Abilities hero))"
  "TurnOrder state0 \<noteq> []"
  "Ability.ID (hd (Abilities hero)) = ''a-hero''"
  "Cooldown (hd (Abilities hero)) = 3"
  by (simp_all add: GetCharacterByID_def cooldownOf_def state0_def abilityAction_def Action0_def
      hero_def createTestCharacter_def)

theorem cooldown_after_ability_use_witness:
  "valid_order sortedKeys
   \<and> Kind abilityAction = ''Ability''
   \<and> GetCharacterByID state0 (Action.Actor abilityAction) = Some 0
   \<and> find (\<lambda>b. Ability.ID b = Action.Ability abilityAction) (Abilities (Characters state0 ! 0))
       = Some (hd (Abilities hero))
   \<and> AbilityCooldowns (Characters state0 ! 0) = Some fmempty
   \<and> cooldownOf (Characters state0 ! 0) (Ability.ID (hd (Abilities hero))) \<le> 0
   \<and> 0 \<le> Cooldown (hd (Abilities hero))
   \<and> TurnOrder state0 \<noteq> []
   \<and> (\<exists>r. ApplyAction sortedKeys lcg state0 abilityAction 12345 = Inr r
          \<and> cooldownOf (Characters (State r) ! 0) ''a-hero'' = 2
          \<and> (\<forall>N. \<exists>s'. advanceTurns sortedKeys N (State r) = Inr s'
                 \<and> cooldownOf (Characters s' ! 0) ''a-hero'' = max 0 (2 - int N)))"
  using cooldown_after_ability_use [OF valid_order_sortedKeys state0_ability_facts(1-7),
      of lcg 12345]
    valid_order_sortedKeys state0_ability_facts(1-7)
  by (simp add: state0_ability_facts(8,9))

text \<open>
  C6 as stated fails: the hero's test ability has cooldown 3 and is not on cooldown; in the
  state returned by the resolution that uses it the entry is 2, not 3.
\<close>

theorem cooldown_not_full_after_use:
  "Cooldown (hd (Abilities hero)) = 3
   \<and> find (\<lambda>b. Ability.ID b = Action.Ability abilityAction) (Abilities (Characters state0 ! 0))
       = Some (hd (Abilities hero))
   \<and> cooldownOf (Characters state0 ! 0) ''a-hero'' = 0
   \<and> (\<exists>r. ApplyAction sortedKeys lcg state0 abilityAction 12345 = Inr r
          \<and> cooldownOf (Characters (State r) ! 0) ''a-hero'' = 2)"
proof -
  have "cooldownOf (Characters state0 ! 0) ''a-hero'' = 0"
    by (simp add: cooldownOf_def state0_def hero_def createTestCharacter_def)
  moreover have "\<exists>r. ApplyAction sortedKeys lcg state0 abilityAction 12345 = Inr r
          \<and> cooldownOf (Characters (State r) ! 0) ''a-hero'' = 2"
    using ability_use_cooldown [OF valid_order_sortedKeys state0_ability_facts(1-7),
        of lcg 12345]
    by (auto simp: state0_ability_facts(8,9))
  ultimately show ?thesis
    using state0_ability_facts(3,9) by simp
qed

subsection \<open>Turn and round progression\<close>

lemma advanceTurn_step:
  assumes "TurnOrder s \<noteq> []" and "0 \<le> CurrentTurn s"
    and "CurrentTurn s < int (length (TurnOrder s))" and "\<not> IsComplete s"
  shows "\<exists>s'. advanceTurn ord s = Inr s' \<and> TurnOrder s' = TurnOrder s
           \<and> (if IsComplete s' then Round s' = Round s \<and> CurrentTurn s' = CurrentTurn s
               else 0 \<le> CurrentTurn s' \<and> CurrentTurn s' < int (length (TurnOrder s))
                    \<and> Round s' * int (length (TurnOrder s)) + CurrentTurn s'
                        = Round s * int (length (TurnOrder s)) + CurrentTurn s + 1)"
proof -
  let ?n = "int (length (TurnOrder s))"
  have n: "0 < ?n" using assms(1) by simp
  have m: "(CurrentTurn s + 1) smod ?n = (CurrentTurn s + 1) mod ?n"
    using assms(2) n by (simp add: smod_mod_positive)
  show ?thesis
  proof (cases "CurrentTurn s + 1 = ?n")
    case True
    then have "(CurrentTurn s + 1) mod ?n = 0" by simp
    with True assms n m show ?thesis
      by (simp add: advanceTurn_def deepCopyState_def Let_def algebra_simps)
  next
    case False
    with assms(2,3) have "(CurrentTurn s + 1) mod ?n = CurrentTurn s + 1"
      by simp
    with False assms n m show ?thesis
      by (simp add: advanceTurn_def deepCopyState_def Let_def)
  qed
qed

lemma setX_turn [simp]:
  "CurrentTurn (setCooldowns s i m) = CurrentTurn s"
  "Round (setCooldowns s i m) = Round s"
  "IsComplete (setCooldowns s i m) = IsComplete s"
  "CurrentTurn (setDefense s i v) = CurrentTurn s"
  "Round (setDefense s i v) = Round s"
  "IsComplete (setDefense s i v) = IsComplete s"
  "CurrentTurn (setItems s i its) = CurrentTurn s"
  "Round (setItems s i its) = Round s"
  "IsComplete (setItems s i its) = IsComplete s"
  by (simp_all add: setCooldowns_def setDefense_def setItems_def)

text \<open>
  An action that neither soft-fails nor writes a \<^verbatim>\<open>nil\<close> map ends in the Turn Advancer, run
  on a state with the turn position of the input, or in a successful flee.
\<close>

lemma handleAttack_resolved:
  assumes "GetCharacterByID s (Attacker a) \<noteq> None"
    and "GetCharacterByID s (Action.Target a) \<noteq> None"
    and adv: "\<And>st ev lg'. TurnOrder st = TurnOrder s \<Longrightarrow> CurrentTurn st = CurrentTurn s \<Longrightarrow>
              Round st = Round s \<Longrightarrow> IsComplete st = IsComplete s \<Longrightarrow>
              Q (advanceAndReturn ord st ev lg')"
  shows "Q (handleAttack ord R s a g ev lg)"
  using assms(1,2)
  by (auto simp: handleAttack_def Let_def split: option.splits prod.splits intro!: adv)

lemma handleDefend_resolved:
  assumes "GetCharacterByID s (Action.Actor a) \<noteq> None"
    and adv: "\<And>st ev lg'. TurnOrder st = TurnOrder s \<Longrightarrow> CurrentTurn st = CurrentTurn s \<Longrightarrow>
              Round st = Round s \<Longrightarrow> IsComplete st = IsComplete s \<Longrightarrow>
              Q (advanceAndReturn ord st ev lg')"
  shows "Q (handleDefend ord R s a g ev lg)"
  using assms(1)
  by (auto simp: handleDefend_def Let_def split: option.splits prod.splits intro!: adv)

lemma handleAbility_resolved:
  assumes "GetCharacterByID s (Action.Actor a) = Some ci"
    and "find (\<lambda>b. Ability.ID b = Action.Ability a) (Abilities (Characters s ! ci))
           = Some ability"
    and "\<not> cooldownOf (Characters s ! ci) (Ability.ID ability) > 0"
    and "AbilityCooldowns (Characters s ! ci) \<noteq> None"
    and adv: "\<And>st ev lg'. TurnOrder st = TurnOrder s \<Longrightarrow> CurrentTurn st = CurrentTurn s \<Longrightarrow>
              Round st = Round s \<Longrightarrow> IsComplete st = IsComplete s \<Longrightarrow>
              Q (advanceAndReturn ord st ev lg')"
  shows "Q (handleAbility ord R s a g ev lg)"
  using assms(1-4)
  by (auto simp: handleAbility_def Let_def cooldownOf_def
      split: option.splits prod.splits intro!: adv)

lemma handleUseItem_resolved:
  assumes "GetCharacterByID s (Action.Actor a) = Some ci"
    and "findIndex (\<lambda>i. Item.ID i = Action.Item a) (Items (Characters s ! ci)) \<noteq> None"
    and adv: "\<And>st ev lg'. TurnOrder st = TurnOrder s \<Longrightarrow> CurrentTurn st = CurrentTurn s \<Longrightarrow>
              Round st = Round s \<Longrightarrow> IsComplete st = IsComplete s \<Longrightarrow>
              Q (advanceAndReturn ord st ev lg')"
  shows "Q (handleUseItem ord R s a g ev lg)"
  using assms(1,2)
  by (auto simp: handleUseItem_def Let_def split: option.splits prod.splits intro!: adv)

lemma handleFlee_resolved:
  assumes "GetCharacterByID s (Action.Actor a) \<noteq> None"
    and adv: "\<And>st ev lg'. TurnOrder st = TurnOrder s \<Longrightarrow> CurrentTurn st = CurrentTurn s \<Longrightarrow>
              Round st = Round s \<Longrightarrow> IsComplete st = IsComplete s \<Longrightarrow>
              Q (advanceAndReturn ord st ev lg')"
    and flee: "\<And>ev lg'. Q (Inr \<lparr>Events = ev,
                 State = s\<lparr>IsComplete := True, Winner := Some ''player''\<rparr>, Logs = lg'\<rparr>)"
  shows "Q (handleFlee ord R s a g ev lg)"
  using assms(1)
  by (auto simp: handleFlee_def Let_def State_rebuild split: option.splits prod.splits
      intro!: adv flee)

lemma ApplyAction_resolved:
  assumes "\<not> softFails s a" and "\<not> writesNilMap s a"
    and adv: "\<And>st ev lg'. TurnOrder st = TurnOrder s \<Longrightarrow> CurrentTurn st = CurrentTurn s \<Longrightarrow>
              Round st = Round s \<Longrightarrow> IsComplete st = IsComplete s \<Longrightarrow>
              Q (advanceAndReturn ord st ev lg')"
    and flee: "\<And>ev lg'. Q (Inr \<lparr>Events = ev,
                 State = s\<lparr>IsComplete := True, Winner := Some ''player''\<rparr>, Logs = lg'\<rparr>)"
  shows "Q (ApplyAction ord R s a n)"
proof -
  from assms(1) obtain ci where ci: "GetCharacterByID s (getActorID a) = Some ci"
    by (auto simp: softFails_def split: option.splits)
  from assms(1) ci have k: "Kind a \<in> set validKinds"
    by (simp add: softFails_def)
  then consider "Kind a = ''Attack''" | "Kind a = ''Defend''" | "Kind a = ''Ability''"
    | "Kind a = ''UseItem''" | "Kind a = ''Flee''"
    by (auto simp: validKinds_def)
  then show ?thesis
  proof cases
    case 1
    with ci have at: "GetCharacterByID s (Attacker a) \<noteq> None"
      by (simp add: getActorID_def)
    from assms(1) ci 1 have tg: "GetCharacterByID s (Action.Target a) \<noteq> None"
      by (simp add: softFails_def)
    show ?thesis
      using 1 ci k
      by (simp add: ApplyAction_def deepCopyState_def handleAttack_resolved [where Q = Q and ord = ord, OF at tg adv])
  next
    case 2
    with ci have ac: "GetCharacterByID s (Action.Actor a) \<noteq> None"
      by (simp add: getActorID_def)
    show ?thesis
      using 2 ci k
      by (simp add: ApplyAction_def deepCopyState_def handleDefend_resolved [where Q = Q and ord = ord, OF ac adv])
  next
    case 3
    with ci have ac: "GetCharacterByID s (Action.Actor a) = Some ci"
      by (simp add: getActorID_def)
    from assms(1) ci 3 obtain ability where
      ab: "find (\<lambda>b. Ability.ID b = Action.Ability a) (Abilities (Characters s ! ci))
             = Some ability"
      and cd: "\<not> cooldownOf (Characters s ! ci) (Ability.ID ability) > 0"
      by (auto simp: softFails_def split: option.splits)
    from assms(2) 3 ac have nn: "AbilityCooldowns (Characters s ! ci) \<noteq> None"
      by (simp add: writesNilMap_def)
    show ?thesis
      using 3 ci k
      by (simp add: ApplyAction_def deepCopyState_def
          handleAbility_resolved [where Q = Q and ord = ord, OF ac ab cd nn adv])
  next
    case 4
    with ci have ac: "GetCharacterByID s (Action.Actor a) = Some ci"
      by (simp add: getActorID_def)
    from assms(1) ci 4 have it:
      "findIndex (\<lambda>i. Item.ID i = Action.Item a) (Items (Characters s ! ci)) \<noteq> None"
      by (simp add: softFails_def)
    show ?thesis
      using 4 ci k
      by (simp add: ApplyAction_def deepCopyState_def handleUseItem_resolved [where Q = Q and ord = ord, OF ac it adv])
  next
    case 5
    with ci have ac: "GetCharacterByID s (Action.Actor a) \<noteq> None"
      by (simp add: getActorID_def)
    show ?thesis
      using 5 ci k
      by (simp add: ApplyAction_def deepCopyState_def handleFlee_resolved [where Q = Q and ord = ord, OF ac adv flee])
  qed
qed


lemma ApplyAction_progress:
  assumes "\<not> softFails s a" and "\<not> writesNilMap s a"
    and "TurnOrder s \<noteq> []" and "0 \<le> CurrentTurn s"
    and "CurrentTurn s < int (length (TurnOrder s))" and "\<not> IsComplete s"
  shows "\<exists>r. ApplyAction ord R s a n = Inr r \<and> TurnOrder (State r) = TurnOrder s
           \<and> (if IsComplete (State r)
               then Round (State r) = Round s \<and> CurrentTurn (State r) = CurrentTurn s
               else 0 \<le> CurrentTurn (State r)
                    \<and> CurrentTurn (State r) < int (length (TurnOrder s))
                    \<and> Round (State r) * int (length (TurnOrder s)) + CurrentTurn (State r)
                        = Round s * int (length (TurnOrder s)) + CurrentTurn s + 1)"
proof (rule ApplyAction_resolved [OF assms(1,2)])
  fix st :: State and ev :: "Event list" and lg' :: "string list"
  assume st: "TurnOrder st = TurnOrder s" "CurrentTurn st = CurrentTurn s"
    "Round st = Round s" "IsComplete st = IsComplete s"
  with assms(3-6) have "TurnOrder st \<noteq> []" "0 \<le> CurrentTurn st"
    "CurrentTurn st < int (length (TurnOrder st))" "\<not> IsComplete st"
    by simp_all
  from advanceTurn_step [OF this, of ord] obtain s' where
    "advanceTurn ord st = Inr s'" "TurnOrder s' = TurnOrder st"
    "if IsComplete s' then Round s' = Round st \<and> CurrentTurn s' = CurrentTurn st
     else 0 \<le> CurrentTurn s' \<and> CurrentTurn s' < int (length (TurnOrder st))
          \<and> Round s' * int (length (TurnOrder st)) + CurrentTurn s'
              = Round st * int (length (TurnOrder st)) + CurrentTurn st + 1"
    by blast
  then show "\<exists>r. advanceAndReturn ord st ev lg' = Inr r \<and> TurnOrder (State r) = TurnOrder s
           \<and> (if IsComplete (State r)
               then Round (State r) = Round s \<and> CurrentTurn (State r) = CurrentTurn s
               else 0 \<le> CurrentTurn (State r)
                    \<and> CurrentTurn (State r) < int (length (TurnOrder s))
                    \<and> Round (State r) * int (length (TurnOrder s)) + CurrentTurn (State r)
                        = Round s * int (length (TurnOrder s)) + CurrentTurn s + 1)"
    using st by (simp add: advanceAndReturn_def split: if_splits)
next
  fix ev :: "Event list" and lg' :: "string list"
  show "\<exists>r. Inr \<lparr>Events = ev, State = s\<lparr>IsComplete := True, Winner := Some ''player''\<rparr>,
                  Logs = lg'\<rparr> = Inr r \<and> TurnOrder (State r) = TurnOrder s
           \<and> (if IsComplete (State r)
               then Round (State r) = Round s \<and> CurrentTurn (State r) = CurrentTurn s
               else 0 \<le> CurrentTurn (State r)
                    \<and> CurrentTurn (State r) < int (length (TurnOrder s))
                    \<and> Round (State r) * int (length (TurnOrder s)) + CurrentTurn (State r)
                        = Round s * int (length (TurnOrder s)) + CurrentTurn s + 1)"
    by simp
qed

lemma driveEncounter_ended:
  "CheckCombatEnd s \<Longrightarrow> driveEncounter ord R policy k s = Inr s"
  by (cases k) simp_all

lemma driveEncounter_bound:
  assumes "TurnOrder s \<noteq> []" and "0 \<le> CurrentTurn s"
    and "CurrentTurn s < int (length (TurnOrder s))" and "Round s \<le> 20"
    and "policyResolves ord R policy k s"
    and "20 * int (length (TurnOrder s))
           \<le> Round s * int (length (TurnOrder s)) + CurrentTurn s + int k"
  shows "\<exists>s'. driveEncounter ord R policy k s = Inr s' \<and> CheckCombatEnd s' \<and> Round s' \<le> 20"
  using assms
proof (induction k arbitrary: s)
  case 0
  let ?n = "int (length (TurnOrder s))"
  have "20 \<le> Round s"
  proof (rule ccontr)
    assume "\<not> 20 \<le> Round s"
    then have "Round s + 1 \<le> 20" by simp
    then have "(Round s + 1) * ?n \<le> 20 * ?n"
      by (rule mult_right_mono) simp
    with "0.prems"(3,6) show False by (simp add: algebra_simps)
  qed
  with "0.prems"(4) show ?case by (simp add: CheckCombatEnd_def)
next
  case (Suc k)
  let ?n = "int (length (TurnOrder s))"
  show ?case
  proof (cases "CheckCombatEnd s")
    case True
    with Suc.prems(4) show ?thesis by simp
  next
    case False
    then have nc: "\<not> IsComplete s" and rd: "Round s < 20"
      by (simp_all add: CheckCombatEnd_def)
    let ?a = "fst (policy s)" and ?seed = "snd (policy s)"
    from Suc.prems(5) False have sf: "\<not> softFails s ?a" and wn: "\<not> writesNilMap s ?a"
      by simp_all
    from ApplyAction_progress [OF sf wn Suc.prems(1-3) nc, of ord R ?seed] obtain r where
      r: "ApplyAction ord R s ?a ?seed = Inr r"
      and to: "TurnOrder (State r) = TurnOrder s"
      and pr: "if IsComplete (State r)
               then Round (State r) = Round s \<and> CurrentTurn (State r) = CurrentTurn s
               else 0 \<le> CurrentTurn (State r) \<and> CurrentTurn (State r) < ?n
                    \<and> Round (State r) * ?n + CurrentTurn (State r)
                        = Round s * ?n + CurrentTurn s + 1"
      by blast
    from Suc.prems(5) False r have pk: "policyResolves ord R policy k (State r)"
      by simp
    show ?thesis
    proof (cases "IsComplete (State r)")
      case True
      then have e: "CheckCombatEnd (State r)" by (simp add: CheckCombatEnd_def)
      have "driveEncounter ord R policy k (State r) = Inr (State r)"
        by (rule driveEncounter_ended [OF e])
      with e True pr rd False r show ?thesis
        by simp
    next
      case nc': False
      with pr have b: "0 \<le> CurrentTurn (State r)" "CurrentTurn (State r) < ?n"
        and p: "Round (State r) * ?n + CurrentTurn (State r) = Round s * ?n + CurrentTurn s + 1"
        by simp_all
      have r20: "Round (State r) \<le> 20"
      proof (rule ccontr)
        assume "\<not> Round (State r) \<le> 20"
        then have "21 \<le> Round (State r)" by simp
        then have "21 * ?n \<le> Round (State r) * ?n"
          by (rule mult_right_mono) simp
        moreover from rd have "Round s + 1 \<le> 20" by simp
        then have "(Round s + 1) * ?n \<le> 20 * ?n"
          by (rule mult_right_mono) simp
        ultimately show False
          using p b Suc.prems(2,3) by (simp add: algebra_simps)
      qed
      have "\<exists>s'. driveEncounter ord R policy k (State r) = Inr s' \<and> CheckCombatEnd s'
              \<and> Round s' \<le> 20"
      proof (rule Suc.IH)
        show "TurnOrder (State r) \<noteq> []" using to Suc.prems(1) by simp
        show "0 \<le> CurrentTurn (State r)" by (rule b)
        show "CurrentTurn (State r) < int (length (TurnOrder (State r)))"
          using b to by simp
        show "Round (State r) \<le> 20" by (rule r20)
        show "policyResolves ord R policy k (State r)" by (rule pk)
        show "20 * int (length (TurnOrder (State r)))
                \<le> Round (State r) * int (length (TurnOrder (State r)))
                   + CurrentTurn (State r) + int k"
          using Suc.prems(6) p to by simp
      qed
      with False r show ?thesis by simp
    qed
  qed
qed

text \<open>
  C8, as the code has it. An encounter is driven from an initial state (round 1, turn 0, a
  non-empty turn order) by any policy; as long as the policy picks actions that are resolved
  to the end (neither a soft failure, which leaves the turn where it is, nor an ability used
  through a \<^verbatim>\<open>nil\<close> cooldown map), the Combat-End Predicate holds after at most
  \<open>19 * len(turnOrder)\<close> resolutions, with the round at most 20: every resolved action either
  completes the encounter or moves the turn on by one, the round growing by one at each
  wrap of \<^verbatim>\<open>currentTurn\<close>.
\<close>

theorem encounter_ends_by_round_20:
  assumes "Round s0 = 1" and "CurrentTurn s0 = 0" and "TurnOrder s0 \<noteq> []"
    and "policyResolves ord R policy (19 * length (TurnOrder s0)) s0"
  shows "\<exists>s'. driveEncounter ord R policy (19 * length (TurnOrder s0)) s0 = Inr s'
           \<and> CheckCombatEnd s' \<and> Round s' \<le> 20"
proof (rule driveEncounter_bound [OF assms(3) _ _ _ assms(4)])
  show "0 \<le> CurrentTurn s0" by (simp add: assms(2))
  show "CurrentTurn s0 < int (length (TurnOrder s0))" using assms(2,3) by simp
  show "Round s0 \<le> 20" by (simp add: assms(1))
  show "20 * int (length (TurnOrder s0))
          \<le> Round s0 * int (length (TurnOrder s0)) + CurrentTurn s0
             + int (19 * length (TurnOrder s0))"
    by (simp add: assms(1,2))
qed

theorem encounter_ends_by_round_20_witness:
  "Round state0 = 1 \<and> CurrentTurn state0 = 0 \<and> TurnOrder state0 \<noteq> []
   \<and> policyResolves sortedKeys lcg defendPolicy (19 * length (TurnOrder state0)) state0
   \<and> (\<exists>s'. driveEncounter sortedKeys lcg defendPolicy (19 * length (TurnOrder state0)) state0
               = Inr s'
          \<and> CheckCombatEnd s' \<and> Round s' \<le> 20)"
proof -
  have h1: "Round state0 = 1" and h2: "CurrentTurn state0 = 0" and h3: "TurnOrder state0 \<noteq> []"
    by (simp_all add: state0_def)
  have "policyResolves sortedKeys lcg defendPolicy 38 state0"
    by code_simp
  then have h4: "policyResolves sortedKeys lcg defendPolicy (19 * length (TurnOrder state0)) state0"
    by (simp add: state0_def)
  from encounter_ends_by_round_20 [OF h1 h2 h3 h4] h1 h2 h3 h4 show ?thesis
    by blast
qed

text \<open>
  C8 as stated fails. The policy that always names an actor who is not in the encounter is
  a fixed action-selection policy; every resolution soft-fails and returns the input state,
  so the encounter driven from the initial state stays in round 1 with the Combat-End
  Predicate false, however many actions are applied.
\<close>

theorem soft_failing_policy_never_ends:
  "Round state0 = 1 \<and> CurrentTurn state0 = 0 \<and> TurnOrder state0 \<noteq> []
   \<and> \<not> CheckCombatEnd state0
   \<and> (\<forall>k. driveEncounter sortedKeys lcg ghostPolicy k state0 = Inr state0)"
proof -
  have e: "\<not> CheckCombatEnd state0"
    by (simp add: CheckCombatEnd_def state0_def)
  have g: "ApplyAction sortedKeys lcg state0 ghostAction 7 =
     Inr \<lparr>Events = [], State = state0,
          Logs = [''Actor bypass: Direct mutation used'',
                  ''Invalid action: character not found'']\<rparr>"
    by (simp add: ApplyAction_def deepCopyState_def GetCharacterByID_def getActorID_def
        ghostAction_def Action0_def state0_def hero_def goblin_def createTestCharacter_def)
  have "driveEncounter sortedKeys lcg ghostPolicy k state0 = Inr state0" for k
    by (induction k) (simp_all add: e g ghostPolicy_def)
  with e show ?thesis
    by (simp add: state0_def)
qed

text \<open>
  The round counter over a full pass: after \<open>len(turnOrder)\<close> invocations of the Turn
  Advancer that leave the encounter incomplete, \<^verbatim>\<open>currentTurn\<close> is back where it was and the
  round is one higher.
\<close>

lemma advanceTurn_IsComplete:
  "advanceTurn ord s = Inr s' \<Longrightarrow> IsComplete s \<Longrightarrow> IsComplete s'"
  by (auto simp: advanceTurn_def deepCopyState_def Let_def split: if_splits)

lemma advanceTurns_position:
  assumes "advanceTurns ord N s = Inr s'" and "\<not> IsComplete s'"
    and "TurnOrder s \<noteq> []" and "0 \<le> CurrentTurn s"
    and "CurrentTurn s < int (length (TurnOrder s))"
  shows "TurnOrder s' = TurnOrder s \<and> 0 \<le> CurrentTurn s'
         \<and> CurrentTurn s' < int (length (TurnOrder s))
         \<and> Round s' * int (length (TurnOrder s)) + CurrentTurn s'
             = Round s * int (length (TurnOrder s)) + CurrentTurn s + int N"
  using assms
proof (induction N arbitrary: s)
  case 0
  then show ?case by simp
next
  case (Suc N)
  from Suc.prems(1) obtain s1 where s1: "advanceTurn ord s = Inr s1"
    and r: "advanceTurns ord N s1 = Inr s'"
    by (auto split: sum.splits)
  have c1: "\<not> IsComplete s1"
  proof
    assume "IsComplete s1"
    moreover have "IsComplete t \<Longrightarrow> advanceTurns ord M t = Inr t' \<Longrightarrow> IsComplete t'" for M t t'
      by (induction M arbitrary: t) (auto split: sum.splits dest: advanceTurn_IsComplete)
    ultimately have "IsComplete s'" using r by blast
    with Suc.prems(2) show False by simp
  qed
  have c0: "\<not> IsComplete s"
    using advanceTurn_IsComplete [OF s1] c1 by blast
  from advanceTurn_step [OF Suc.prems(3-5) c0, of ord] s1 c1
  have st: "TurnOrder s1 = TurnOrder s" "0 \<le> CurrentTurn s1"
    "CurrentTurn s1 < int (length (TurnOrder s))"
    "Round s1 * int (length (TurnOrder s)) + CurrentTurn s1
       = Round s * int (length (TurnOrder s)) + CurrentTurn s + 1"
    by auto
  from Suc.IH [OF r Suc.prems(2)] st Suc.prems(3) show ?case
    by simp
qed

lemma round_grows_every_full_pass:
  assumes "advanceTurns ord (length (TurnOrder s)) s = Inr s'" and "\<not> IsComplete s'"
    and "TurnOrder s \<noteq> []" and "0 \<le> CurrentTurn s"
    and "CurrentTurn s < int (length (TurnOrder s))"
  shows "Round s' = Round s + 1 \<and> CurrentTurn s' = CurrentTurn s"
proof -
  let ?n = "int (length (TurnOrder s))"
  from advanceTurns_position [OF assms] have
    b: "0 \<le> CurrentTurn s'" "CurrentTurn s' < ?n"
    and p: "Round s' * ?n + CurrentTurn s' = (Round s + 1) * ?n + CurrentTurn s"
    by (simp_all add: algebra_simps)
  have n: "0 < ?n" using assms(3) by simp
  have "(Round s' * ?n + CurrentTurn s') div ?n = Round s'"
    using b n by simp
  moreover have "((Round s + 1) * ?n + CurrentTurn s) div ?n = Round s + 1"
    using assms(4,5) n by simp
  ultimately have "Round s' = Round s + 1" using p by simp
  with p show ?thesis by simp
qed

subsection \<open>The resolver writes only memory it allocated\<close>

lemma writesOnly_refl [simp]: "writesOnly st st W"
  by (simp add: writesOnly_def)

lemma writesOnly_update [simp]: "writesOnly st (update st state i f) {vCharacters state}"
  by (simp add: writesOnly_def update_def)

lemma length_update [simp]: "length (update st state i f) = length st"
  by (simp add: update_def)

lemma writesOnly_trans:
  "writesOnly st st1 W \<Longrightarrow> writesOnly st1 st2 W' \<Longrightarrow> W' \<inter> {..<length st} \<subseteq> W
   \<Longrightarrow> writesOnly st st2 W"
  unfolding writesOnly_def
proof (intro conjI allI impI)
  assume a: "length st \<le> length st1 \<and> (\<forall>addr<length st. addr \<notin> W \<longrightarrow> st1 ! addr = st ! addr)"
    and b: "length st1 \<le> length st2 \<and> (\<forall>addr<length st1. addr \<notin> W' \<longrightarrow> st2 ! addr = st1 ! addr)"
    and c: "W' \<inter> {..<length st} \<subseteq> W"
  from a b show "length st \<le> length st2" by simp
  fix addr assume d: "addr < length st" "addr \<notin> W"
  with c have "addr \<notin> W'" by auto
  moreover from d a have "addr < length st1" by simp
  ultimately have "st2 ! addr = st1 ! addr" using b by simp
  with a d show "st2 ! addr = st ! addr" by simp
qed

lemma fst_advanceTurnM:
  "fst (advanceTurnM ord st state)
     = st @ [map (tickCharacter ord) (st ! vCharacters state)]"
  by (simp add: advanceTurnM_def deepCopyStateM_def Let_def)

lemma advanceTurnM_writes: "writesOnly st (fst (advanceTurnM ord st state)) {}"
  by (simp add: fst_advanceTurnM writesOnly_def nth_append)

lemma fst_advanceAndReturnM:
  "fst (advanceAndReturnM ord st state ev lg) = fst (advanceTurnM ord st state)"
  by (simp add: advanceAndReturnM_def split: prod.splits sum.splits)

lemma advanceAndReturnM_writes:
  "writesOnly st (fst (advanceAndReturnM ord st state ev lg)) {}"
  by (simp add: fst_advanceAndReturnM advanceTurnM_writes)


lemma writesOnly_mono: "writesOnly st st' W \<Longrightarrow> W \<subseteq> W' \<Longrightarrow> writesOnly st st' W'"
  by (auto simp: writesOnly_def)

lemma adv_writes [simp]: "writesOnly st (fst (advanceAndReturnM ord st state ev lg)) W"
  by (rule writesOnly_mono [OF advanceAndReturnM_writes]) simp

lemma adv_update_writes [simp]:
  "writesOnly st (fst (advanceAndReturnM ord (update st state i f) state' ev lg))
     {vCharacters state}"
  by (rule writesOnly_trans [OF writesOnly_update advanceAndReturnM_writes]) simp

lemma adv_update2_writes [simp]:
  "writesOnly st
     (fst (advanceAndReturnM ord (update (update st state i f) state j h) state' ev lg))
     {vCharacters state}"
  by (rule writesOnly_trans [OF writesOnly_update adv_update_writes]) simp

lemma handleAttackM_writes:
  "writesOnly st (fst (handleAttackM ord R st state a g ev lg)) {vCharacters state}"
  by (simp add: handleAttackM_def Let_def split: option.splits prod.splits)

lemma handleDefendM_writes:
  "writesOnly st (fst (handleDefendM ord R st state a g ev lg)) {vCharacters state}"
  by (simp add: handleDefendM_def Let_def split: option.splits prod.splits)

lemma handleAbilityM_writes:
  "writesOnly st (fst (handleAbilityM ord R st state a g ev lg)) {vCharacters state}"
  by (simp add: handleAbilityM_def Let_def split: option.splits prod.splits)

lemma handleUseItemM_writes:
  "writesOnly st (fst (handleUseItemM ord R st state a g ev lg)) {vCharacters state}"
  by (simp add: handleUseItemM_def Let_def split: option.splits prod.splits)

lemma handleFleeM_writes:
  "writesOnly st (fst (handleFleeM ord R st state a g ev lg)) {vCharacters state}"
  by (simp add: handleFleeM_def Let_def split: option.splits prod.splits)

lemma on_copy:
  assumes "writesOnly (st @ [c]) st' {length st}"
  shows "writesOnly st st' {}"
  using assms by (auto simp: writesOnly_def nth_append)

lemma ApplyActionM_writes: "writesOnly st (fst (ApplyActionM ord R st s a n)) {}"
proof -
  let ?st1 = "st @ [st ! vCharacters s]" and ?new = "s\<lparr>vCharacters := length st\<rparr>"
  let ?g = "NewSeededRNG R n" and ?lg = "[''Actor bypass: Direct mutation used'']"
  have c: "writesOnly st ?st1 {}"
    by (simp add: writesOnly_def nth_append)
  have "writesOnly st (fst (handleAttackM ord R ?st1 ?new a ?g [] ?lg)) {}"
    "writesOnly st (fst (handleDefendM ord R ?st1 ?new a ?g [] ?lg)) {}"
    "writesOnly st (fst (handleAbilityM ord R ?st1 ?new a ?g [] ?lg)) {}"
    "writesOnly st (fst (handleUseItemM ord R ?st1 ?new a ?g [] ?lg)) {}"
    "writesOnly st (fst (handleFleeM ord R ?st1 ?new a ?g [] ?lg)) {}"
    using handleAttackM_writes [of ?st1 ord R ?new a ?g "[]" ?lg]
      handleDefendM_writes [of ?st1 ord R ?new a ?g "[]" ?lg]
      handleAbilityM_writes [of ?st1 ord R ?new a ?g "[]" ?lg]
      handleUseItemM_writes [of ?st1 ord R ?new a ?g "[]" ?lg]
      handleFleeM_writes [of ?st1 ord R ?new a ?g "[]" ?lg]
    by (simp_all add: on_copy)
  with c show ?thesis
    by (simp add: ApplyActionM_def deepCopyStateM_def Let_def split: option.splits)
qed

text \<open>
  C9. \<^verbatim>\<open>ApplyAction\<close> never writes memory that existed before the call: in the store it
  leaves behind (also when it panics) every array that was there holds what it held, so the
  input state, and any state returned earlier, reads as it did before the call. The handlers
  write only into the array that \<^verbatim>\<open>deepCopyState\<close> allocated, the Turn Advancer only into
  its own copy.
\<close>

theorem ApplyAction_never_mutates_input:
  assumes "vCharacters s < length st"
  shows "load (fst (ApplyActionM ord R st s a n)) s = load st s
         \<and> (\<forall>addr < length st. fst (ApplyActionM ord R st s a n) ! addr = st ! addr)"
  using ApplyActionM_writes [of st ord R s a n] assms
  by (simp add: writesOnly_def load_def)

theorem ApplyAction_never_mutates_input_witness:
  "vCharacters stateV0 < length store0
   \<and> load (fst (ApplyActionM sortedKeys lcg store0 stateV0 attackAction 12345)) stateV0
       = load store0 stateV0
   \<and> fst (ApplyActionM sortedKeys lcg store0 stateV0 attackAction 12345) ! 0 = store0 ! 0"
proof -
  have h: "vCharacters stateV0 < length store0"
    by (simp add: stateV0_def store0_def)
  have z: "0 < length store0"
    by (simp add: store0_def)
  from ApplyAction_never_mutates_input [OF h, of sortedKeys lcg attackAction 12345] h z
  show ?thesis by blast
qed

subsection \<open>The store model computes the values of the value model\<close>

lemma load_simps [simp]:
  "Round (load st state) = vRound state"
  "Characters (load st state) = st ! vCharacters state"
  "TurnOrder (load st state) = vTurnOrder state"
  "CurrentTurn (load st state) = vCurrentTurn state"
  "IsComplete (load st state) = vIsComplete state"
  "Winner (load st state) = vWinner state"
  by (simp_all add: load_def)

lemma load_update_HP:
  "vCharacters state < length st \<Longrightarrow>
   load (update st state i (\<lambda>c. c\<lparr>Stats := (Stats c)\<lparr>HP := v\<rparr>\<rparr>)) state
     = setHP (load st state) i v"
  by (simp add: load_def update_def setHP_def)

lemma load_update_Defense:
  "vCharacters state < length st \<Longrightarrow>
   load (update st state i (\<lambda>c. c\<lparr>Stats := (Stats c)\<lparr>Defense := v\<rparr>\<rparr>)) state
     = setDefense (load st state) i v"
  by (simp add: load_def update_def setDefense_def)

lemma advanceTurnM_value:
  assumes "vCharacters state < length st"
  shows "(case advanceTurnM ord st state of
            (st', Inl p) \<Rightarrow> Inl p | (st', Inr s') \<Rightarrow> Inr (load st' s'))
         = advanceTurn ord (load st state)"
  using assms
  by (simp add: advanceTurnM_def advanceTurn_def deepCopyStateM_def deepCopyState_def Let_def
      load_def nth_append)

lemma advanceAndReturnM_value:
  assumes "vCharacters state < length st"
  shows "valueOf (advanceAndReturnM ord st state ev lg)
         = advanceAndReturn ord (load st state) ev lg"
  using advanceTurnM_value [OF assms, of ord]
  by (auto simp: valueOf_def advanceAndReturnM_def advanceAndReturn_def loadResolution_def
      split: prod.splits sum.splits)


lemma valueOf_simps [simp]:
  "valueOf (st, Inr res) = Inr (loadResolution st res)"
  "valueOf (st, Inl p) = Inl p"
  by (simp_all add: valueOf_def)

lemma loadResolution_simp [simp]:
  "loadResolution st \<lparr>vEvents = ev, vState = state, vLogs = lg\<rparr>
     = \<lparr>Events = ev, State = load st state, Logs = lg\<rparr>"
  by (simp add: loadResolution_def)

lemma handleAttackM_value:
  assumes "vCharacters state < length st"
  shows "valueOf (handleAttackM ord R st state a g ev lg)
         = handleAttack ord R (load st state) a g ev lg"
  using assms
  by (simp add: handleAttackM_def handleAttack_def Let_def advanceAndReturnM_value
      load_update_HP split: option.splits prod.splits)

lemma handleDefendM_value:
  assumes "vCharacters state < length st"
  shows "valueOf (handleDefendM ord R st state a g ev lg)
         = handleDefend ord R (load st state) a g ev lg"
  using assms
  by (simp add: handleDefendM_def handleDefend_def Let_def advanceAndReturnM_value
      load_update_Defense split: option.splits prod.splits)

lemma handleAbilityM_value:
  assumes "vCharacters state < length st"
  shows "valueOf (handleAbilityM ord R st state a g ev lg)
         = handleAbility ord R (load st state) a g ev lg"
  using assms
  by (simp add: handleAbilityM_def handleAbility_def Let_def advanceAndReturnM_value
      cooldownOf_def load_def update_def setHP_def setCooldowns_def
      split: option.splits prod.splits)

lemma handleUseItemM_value:
  assumes "vCharacters state < length st"
  shows "valueOf (handleUseItemM ord R st state a g ev lg)
         = handleUseItem ord R (load st state) a g ev lg"
  using assms
  by (simp add: handleUseItemM_def handleUseItem_def Let_def advanceAndReturnM_value
      load_def update_def setHP_def setItems_def split: option.splits prod.splits)

lemma StateV_rebuild:
  "\<lparr>vRound = vRound s, vCharacters = vCharacters s, vTurnOrder = vTurnOrder s,
    vCurrentTurn = vCurrentTurn s, vIsComplete = b, vWinner = w\<rparr>
   = s\<lparr>vIsComplete := b, vWinner := w\<rparr>"
  by (cases s) simp

lemma handleFleeM_value:
  assumes "vCharacters state < length st"
  shows "valueOf (handleFleeM ord R st state a g ev lg)
         = handleFlee ord R (load st state) a g ev lg"
  using assms
  by (simp add: handleFleeM_def handleFlee_def Let_def advanceAndReturnM_value
      StateV_rebuild State_rebuild load_def split: option.splits prod.splits)

lemma load_copy:
  "vCharacters s < length st \<Longrightarrow>
   load (st @ [st ! vCharacters s]) (s\<lparr>vCharacters := length st\<rparr>) = load st s"
  "vCharacters s < length st \<Longrightarrow> load (st @ [c]) s = load st s"
  by (simp_all add: load_def nth_append)

lemma ApplyActionM_value:
  assumes "vCharacters s < length st"
  shows "valueOf (ApplyActionM ord R st s a n) = ApplyAction ord R (load st s) a n"
proof -
  let ?st1 = "st @ [st ! vCharacters s]" and ?new = "s\<lparr>vCharacters := length st\<rparr>"
  have n: "vCharacters ?new < length ?st1" by simp
  note h = handleAttackM_value [OF n] handleDefendM_value [OF n] handleAbilityM_value [OF n]
    handleUseItemM_value [OF n] handleFleeM_value [OF n]
  show ?thesis
    using assms
    by (simp add: ApplyActionM_def ApplyAction_def deepCopyStateM_def deepCopyState_def
        Let_def h load_copy split: option.splits)
qed

subsection \<open>Hit points stay in bounds when no ability has negative power\<close>

lemma RollD6_range:
  assumes "Intn_in_range R" and "RollD6 R g = (v, g')"
  shows "1 \<le> v \<and> v \<le> 6"
proof -
  from assms(1) have "0 \<le> fst (Intn R g 6) \<and> fst (Intn R g 6) < 6"
    unfolding Intn_in_range_def by simp
  with assms(2) show ?thesis
    by (auto simp: RollD6_def split: prod.splits)
qed

lemma hpInBounds_advanceTurn:
  assumes "advanceTurn ord s = Inr s'" and "hpInBounds s"
  shows "hpInBounds s'"
  using assms(2) by (auto simp: hpInBounds_def advanceTurn_Inr(1) [OF assms(1)])

lemma hpInBounds_advanceAndReturn:
  assumes "advanceAndReturn ord s ev lg = Inr r" and "hpInBounds s"
  shows "hpInBounds (State r)"
  using assms by (auto simp: advanceAndReturn_def split: sum.splits dest: hpInBounds_advanceTurn)

lemma hpInBounds_setHP:
  assumes "hpInBounds s" and "0 \<le> v" and "v \<le> MaxHP (Stats (Characters s ! i))"
  shows "hpInBounds (setHP s i v)"
proof (cases "i < length (Characters s)")
  case True
  show ?thesis
    unfolding hpInBounds_def setHP_def
  proof (simp, intro ballI)
    fix c assume "c \<in> set ((Characters s)[i := (Characters s ! i)\<lparr>Stats := (Stats (Characters s ! i))\<lparr>HP := v\<rparr>\<rparr>])"
    then have "c = (Characters s ! i)\<lparr>Stats := (Stats (Characters s ! i))\<lparr>HP := v\<rparr>\<rparr>
               \<or> c \<in> set (Characters s)"
      using set_update_subset_insert by fastforce
    with assms show "0 \<le> HP (Stats c) \<and> HP (Stats c) \<le> MaxHP (Stats c)"
      by (auto simp: hpInBounds_def)
  qed
next
  case False
  with assms(1) show ?thesis
    by (simp add: setHP_def hpInBounds_def list_update_beyond)
qed

lemma hpInBounds_nth:
  "hpInBounds s \<Longrightarrow> i < length (Characters s) \<Longrightarrow>
   0 \<le> HP (Stats (Characters s ! i)) \<and> HP (Stats (Characters s ! i)) \<le> MaxHP (Stats (Characters s ! i))"
  by (simp add: hpInBounds_def)

lemma hpInBounds_setOther:
  assumes "hpInBounds s"
  shows "hpInBounds (setDefense s i v)" and "hpInBounds (setCooldowns s i m)"
    and "hpInBounds (setItems s i its)"
proof -
  have *: "hpInBounds (s\<lparr>Characters := (Characters s)[i := c]\<rparr>)"
    if "Stats c = Stats (Characters s ! i) \<or> (HP (Stats c) = HP (Stats (Characters s ! i))
          \<and> MaxHP (Stats c) = MaxHP (Stats (Characters s ! i)))" for c
  proof (cases "i < length (Characters s)")
    case True
    have "0 \<le> HP (Stats x) \<and> HP (Stats x) \<le> MaxHP (Stats x)"
      if "x \<in> set ((Characters s)[i := c])" for x
    proof -
      from that have "x = c \<or> x \<in> set (Characters s)"
        using set_update_subset_insert by fastforce
      with assms \<open>Stats c = _ \<or> _\<close> True hpInBounds_nth [OF assms True] show ?thesis
        by (auto simp: hpInBounds_def)
    qed
    then show ?thesis by (simp add: hpInBounds_def)
  next
    case False
    with assms show ?thesis by (simp add: hpInBounds_def list_update_beyond)
  qed
  show "hpInBounds (setDefense s i v)" "hpInBounds (setCooldowns s i m)"
    "hpInBounds (setItems s i its)"
    unfolding setDefense_def setCooldowns_def setItems_def by (rule *; simp)+
qed


lemma find_Some_set: "find P xs = Some x \<Longrightarrow> x \<in> set xs \<and> P x"
  by (induction xs) (auto split: if_splits)

lemma GetCharacterByID_less:
  "GetCharacterByID s x = Some i \<Longrightarrow> i < length (Characters s)"
  by (simp add: GetCharacterByID_def findIndex_less)

lemma Stats_setOther [simp]:
  "Stats (Characters (setCooldowns s i m) ! j) = Stats (Characters s ! j)"
  "Stats (Characters (setItems s i its) ! j) = Stats (Characters s ! j)"
  by (cases "i < length (Characters s)"; cases "i = j";
      simp add: setCooldowns_def setItems_def list_update_beyond)+

lemma GetCharacterByID_setCooldowns [simp]:
  "GetCharacterByID (setCooldowns s i m) x = GetCharacterByID s x"
proof -
  have e: "map Character.ID (Characters (setCooldowns s i m)) = map Character.ID (Characters s)"
    by (cases "i < length (Characters s)")
      (simp_all add: setCooldowns_def map_update list_update_beyond list_update_same_conv)
  have f: "findIndex (\<lambda>c. Character.ID c = x) cs
             = findIndex (\<lambda>y. y = x) (map Character.ID cs)" for cs
    by (induction cs) simp_all
  show ?thesis
    unfolding GetCharacterByID_def f [of "Characters (setCooldowns s i m)"]
      f [of "Characters s"] e ..
qed

lemma hpInBounds_lower:
  assumes "hpInBounds s" and "GetCharacterByID s x = Some i" and "0 \<le> v"
    and "v \<le> HP (Stats (Characters s ! i))"
  shows "hpInBounds (setHP s i v)"
  using hpInBounds_nth [OF assms(1) GetCharacterByID_less [OF assms(2)]] assms(3,4)
  by (intro hpInBounds_setHP assms(1)) auto

lemma handleAttack_hp:
  assumes "handleAttack ord R s a g ev lg = Inr r" and "hpInBounds s"
  shows "hpInBounds (State r)"
proof (cases "GetCharacterByID s (Attacker a)")
  case None
  with assms show ?thesis by (auto simp: handleAttack_def)
next
  case ai: (Some ai)
  show ?thesis
  proof (cases "GetCharacterByID s (Action.Target a)")
    case None
    with ai assms show ?thesis by (auto simp: handleAttack_def)
  next
    case ti: (Some ti)
    note b = hpInBounds_nth [OF assms(2) GetCharacterByID_less [OF ti]]
    note g = hpInBounds_lower [OF assms(2) ti]
    from assms ai ti b show ?thesis
      by (auto simp: handleAttack_def Let_def split: prod.splits if_splits
          dest!: hpInBounds_advanceAndReturn intro!: g)
  qed
qed

lemma handleDefend_hp:
  assumes "handleDefend ord R s a g ev lg = Inr r" and "hpInBounds s"
  shows "hpInBounds (State r)"
  using assms
  by (auto simp: handleDefend_def Let_def hpInBounds_setOther split: option.splits
      dest!: hpInBounds_advanceAndReturn)

lemma handleFlee_hp:
  assumes "handleFlee ord R s a g ev lg = Inr r" and "hpInBounds s"
  shows "hpInBounds (State r)"
  using assms
  by (auto simp: handleFlee_def Let_def hpInBounds_def split: option.splits prod.splits if_splits
      dest!: hpInBounds_advanceAndReturn [unfolded hpInBounds_def])

lemma handleUseItem_hp:
  assumes "handleUseItem ord R s a g ev lg = Inr r" and "hpInBounds s" and "Intn_in_range R"
  shows "hpInBounds (State r)"
proof (cases "GetCharacterByID s (Action.Actor a)")
  case None
  with assms show ?thesis by (auto simp: handleUseItem_def)
next
  case ci: (Some ci)
  let ?c = "Characters s ! ci"
  show ?thesis
  proof (cases "findIndex (\<lambda>i. Item.ID i = Action.Item a) (Items ?c)")
    case None
    with ci assms show ?thesis by (auto simp: handleUseItem_def)
  next
    case ix: (Some ix)
    let ?s1 = "setItems s ci (take ix (Items ?c) @ drop (Suc ix) (Items ?c))"
    have s1: "hpInBounds ?s1" by (rule hpInBounds_setOther [OF assms(2)])
    note b = hpInBounds_nth [OF assms(2) GetCharacterByID_less [OF ci]]
    have "hpInBounds (setHP ?s1 ci (min (MaxHP (Stats ?c)) (HP (Stats ?c) + (20 + v))))"
      if "RollD6 R g = (v, g')" for v g'
      using b RollD6_range [OF assms(3) that] by (intro hpInBounds_setHP s1) auto
    with assms(1) ci ix s1 show ?thesis
      by (auto simp: handleUseItem_def Let_def split: prod.splits if_splits
          dest!: hpInBounds_advanceAndReturn)
  qed
qed

lemma handleAbility_hp:
  assumes "handleAbility ord R s a g ev lg = Inr r" and "hpInBounds s" and "Intn_in_range R"
    and "\<forall>c \<in> set (Characters s). \<forall>b \<in> set (Abilities c). 0 \<le> Power b"
  shows "hpInBounds (State r)"
proof (cases "GetCharacterByID s (Action.Actor a)")
  case None
  with assms show ?thesis by (auto simp: handleAbility_def)
next
  case ci: (Some ci)
  let ?c = "Characters s ! ci"
  note cl = GetCharacterByID_less [OF ci]
  show ?thesis
  proof (cases "find (\<lambda>b. Ability.ID b = Action.Ability a) (Abilities ?c)")
    case None
    with ci assms show ?thesis by (auto simp: handleAbility_def)
  next
    case ab: (Some ability)
    from find_Some_set [OF ab] cl assms(4) have pw: "0 \<le> Power ability"
      by (auto dest: nth_mem)
    show ?thesis
    proof (cases "AbilityCooldowns ?c")
      case None
      with ci ab assms show ?thesis
        by (auto simp: handleAbility_def Let_def split: if_splits)
    next
      case m: (Some m)
      let ?s1 = "setCooldowns s ci (fmupd (Ability.ID ability) (Cooldown ability) m)"
      have s1: "hpInBounds ?s1" by (rule hpInBounds_setOther [OF assms(2)])
      have dmg: "hpInBounds (setHP ?s1 ti w)"
        if "RollD6 R g = (v, g')" and "GetCharacterByID s (Action.Target a) = Some ti"
          and "w = max 0 (HP (Stats (Characters s ! ti)) - (Power ability + v))"
        for v g' ti w
        using hpInBounds_nth [OF assms(2) GetCharacterByID_less [OF that(2)]]
          RollD6_range [OF assms(3) that(1)] pw that(3)
        by (intro hpInBounds_setHP s1) auto
      have heal: "hpInBounds (setHP ?s1 ci (min (MaxHP (Stats (Characters ?s1 ! ci)))
                   (HP (Stats (Characters ?s1 ! ci)) + (Power ability + v))))"
        if "RollD6 R g = (v, g')" for v g'
        using hpInBounds_nth [OF assms(2) cl] RollD6_range [OF assms(3) that] pw
        by (intro hpInBounds_setHP s1) auto
      from assms(1,2) ci ab m s1 heal show ?thesis
        by (auto simp: handleAbility_def Let_def split: prod.splits if_splits option.splits
            dest!: hpInBounds_advanceAndReturn intro: dmg)
    qed
  qed
qed

text \<open>
  The bounds on hit points are kept by every resolution in which no ability has negative
  power (and the generator keeps \<^verbatim>\<open>Intn\<close> within its range).
\<close>

lemma hp_bounds_preserved:
  assumes "hpInBounds s" and "Intn_in_range R"
    and "\<forall>c \<in> set (Characters s). \<forall>b \<in> set (Abilities c). 0 \<le> Power b"
    and "ApplyAction ord R s a n = Inr r"
  shows "hpInBounds (State r)"
  using assms(4,1)
  by (auto simp: ApplyAction_def deepCopyState_def Let_def split: option.splits if_splits
      dest: handleAttack_hp handleDefend_hp handleFlee_hp
        handleUseItem_hp [OF _ _ assms(2)] handleAbility_hp [OF _ _ assms(2,3)])

end
